theory Spec2Isabelle
  imports Main
begin

section \<open>Strings and the library functions the program calls\<close>

text \<open>
  A Go string is a sequence of bytes; it is modelled as \<^typ>\<open>string\<close>, a list of
  8-bit characters. The functions of this section are the Go standard library
  functions the repository calls, written out for byte strings.
\<close>

definition NL :: char where
  "NL = CHR 0x0A"

text \<open>\<^verbatim>\<open>strings.HasPrefix(s, prefix)\<close>, wrapped by the source's \<^verbatim>\<open>hasPrefix\<close>.\<close>

definition hasPrefix :: "string \<Rightarrow> string \<Rightarrow> bool" where
  "hasPrefix s pre = (take (length pre) s = pre)"

text \<open>\<^verbatim>\<open>strings.HasSuffix(s, suffix)\<close>.\<close>

definition hasSuffix :: "string \<Rightarrow> string \<Rightarrow> bool" where
  "hasSuffix s suf = (length suf \<le> length s \<and> drop (length s - length suf) s = suf)"

text \<open>\<^verbatim>\<open>strings.Contains(s, substr)\<close>: some suffix of \<open>s\<close> starts with \<open>substr\<close>.\<close>

fun contains :: "string \<Rightarrow> string \<Rightarrow> bool" where
  "contains [] sub = (sub = [])"
| "contains (c # cs) sub = (hasPrefix (c # cs) sub \<or> contains cs sub)"

text \<open>
  \<^verbatim>\<open>strings.Replace(s, old, new, 1)\<close>: the leftmost occurrence of \<open>old\<close> is replaced;
  an empty \<open>old\<close> matches at the start of the string.
\<close>

fun replaceFirst :: "string \<Rightarrow> string \<Rightarrow> string \<Rightarrow> string" where
  "replaceFirst [] old new = (if old = [] then new else [])"
| "replaceFirst (c # cs) old new =
     (if hasPrefix (c # cs) old then new @ drop (length old) (c # cs)
      else c # replaceFirst cs old new)"

text \<open>
  \<^verbatim>\<open>strings.Split(s, "\n")\<close>, the source's \<^verbatim>\<open>splitLines\<close>: the pieces between
  newlines; the empty string gives one empty piece.
\<close>

fun splitLines :: "string \<Rightarrow> string list" where
  "splitLines [] = [[]]"
| "splitLines (c # cs) =
     (if c = NL then [] # splitLines cs
      else (case splitLines cs of
              [] \<Rightarrow> [[c]]
            | l # ls \<Rightarrow> (c # l) # ls))"

text \<open>\<^verbatim>\<open>strings.Join(lines, "\n")\<close>, the source's \<^verbatim>\<open>joinLines\<close>.\<close>

fun joinLines :: "string list \<Rightarrow> string" where
  "joinLines [] = []"
| "joinLines [l] = l"
| "joinLines (l # m # ls) = l @ NL # joinLines (m # ls)"

text \<open>
  \<^verbatim>\<open>strings.TrimSpace\<close> removes leading and trailing white space as
  \<^verbatim>\<open>unicode.IsSpace\<close> defines it. On a byte string these are the UTF-8 encodings of
  the white-space code points: the six ASCII ones, U+0085, U+00A0, U+1680,
  U+2000 to U+200A, U+2028, U+2029, U+202F, U+205F and U+3000. An ill-formed
  byte decodes to U+FFFD, which is not white space, so trimming stops there.
\<close>

definition spaceRunes :: "string list" where
  "spaceRunes =
     [[CHR 0x09], [CHR 0x0A], [CHR 0x0B], [CHR 0x0C], [CHR 0x0D], [CHR 0x20],
      [CHR 0xC2, CHR 0x85], [CHR 0xC2, CHR 0xA0],
      [CHR 0xE1, CHR 0x9A, CHR 0x80],
      [CHR 0xE2, CHR 0x80, CHR 0x80], [CHR 0xE2, CHR 0x80, CHR 0x81],
      [CHR 0xE2, CHR 0x80, CHR 0x82], [CHR 0xE2, CHR 0x80, CHR 0x83],
      [CHR 0xE2, CHR 0x80, CHR 0x84], [CHR 0xE2, CHR 0x80, CHR 0x85],
      [CHR 0xE2, CHR 0x80, CHR 0x86], [CHR 0xE2, CHR 0x80, CHR 0x87],
      [CHR 0xE2, CHR 0x80, CHR 0x88], [CHR 0xE2, CHR 0x80, CHR 0x89],
      [CHR 0xE2, CHR 0x80, CHR 0x8A],
      [CHR 0xE2, CHR 0x80, CHR 0xA8], [CHR 0xE2, CHR 0x80, CHR 0xA9],
      [CHR 0xE2, CHR 0x80, CHR 0xAF],
      [CHR 0xE2, CHR 0x81, CHR 0x9F],
      [CHR 0xE3, CHR 0x80, CHR 0x80]]"

text \<open>The width in bytes of the rune of \<open>runes\<close> the string starts with, 0 if none.\<close>

definition runeWidth :: "string list \<Rightarrow> string \<Rightarrow> nat" where
  "runeWidth runes s =
     (case find (\<lambda>r. hasPrefix s r) runes of None \<Rightarrow> 0 | Some r \<Rightarrow> length r)"

fun trimRunes :: "string list \<Rightarrow> string \<Rightarrow> string" where
  "trimRunes runes [] = []"
| "trimRunes runes (c # cs) =
     (if runeWidth runes (c # cs) = 0 then c # cs
      else trimRunes runes (drop (runeWidth runes (c # cs) - 1) cs))"

definition TrimSpace :: "string \<Rightarrow> string" where
  "TrimSpace s = rev (trimRunes (map rev spaceRunes) (rev (trimRunes spaceRunes s)))"

text \<open>
  \<^verbatim>\<open>strconv.Atoi\<close> on a 64-bit platform: an optional sign, then one or more decimal
  digits, and a value that fits \<^verbatim>\<open>int\<close>; anything else is an error (\<open>None\<close>).
\<close>

definition isDigit :: "char \<Rightarrow> bool" where
  "isDigit c = (48 \<le> (of_char c :: nat) \<and> (of_char c :: nat) \<le> 57)"

definition digitsValue :: "string \<Rightarrow> int" where
  "digitsValue ds = foldl (\<lambda>acc c. 10 * acc + (int (of_char c) - 48)) 0 ds"

definition Atoi :: "string \<Rightarrow> int option" where
  "Atoi s =
     (let neg = (s \<noteq> [] \<and> hd s = CHR ''-'');
          ds = (if s \<noteq> [] \<and> (hd s = CHR ''-'' \<or> hd s = CHR ''+'') then tl s else s)
      in if ds = [] \<or> \<not> list_all isDigit ds then None
         else let v = (if neg then - digitsValue ds else digitsValue ds)
              in if v < - (2 ^ 63) \<or> 2 ^ 63 - 1 < v then None else Some v)"

section \<open>The suggestion protocol: data\<close>

text \<open>\<^verbatim>\<open>Severity\<close> and \<^verbatim>\<open>Confidence\<close> are named string types in the source.\<close>

type_synonym Severity = string
type_synonym Confidence = string

record Suggestion =
  File :: string
  Line :: int
  EndLine :: int
  Severity :: Severity
  Confidence :: Confidence
  Title :: string
  Description :: string
  OriginalCode :: string
  SuggestFix :: string
  Category :: string

text \<open>\<^verbatim>\<open>&Suggestion{File: file}\<close>: every other field has Go's zero value.\<close>

definition newSuggestion :: "string \<Rightarrow> Suggestion" where
  "newSuggestion file =
     \<lparr>File = file, Line = 0, EndLine = 0, Severity = [], Confidence = [], Title = [],
      Description = [], OriginalCode = [], SuggestFix = [], Category = []\<rparr>"

section \<open>The response parser\<close>

text \<open>
  \<^verbatim>\<open>parseStringValue\<close> and \<^verbatim>\<open>parseIntValue\<close> of the source.
\<close>

definition parseStringValue :: "string \<Rightarrow> string \<Rightarrow> string" where
  "parseStringValue line pre =
     (if length line \<le> length pre then [] else TrimSpace (drop (length pre) line))"

definition parseIntValue :: "string \<Rightarrow> string \<Rightarrow> int" where
  "parseIntValue line pre =
     (case Atoi (parseStringValue line pre) of None \<Rightarrow> 0 | Some n \<Rightarrow> n)"

text \<open>
  The local variables of \<^verbatim>\<open>parseStructuredResponse\<close>. \<open>current\<close> is a pointer in the
  source: \<open>None\<close> is \<^verbatim>\<open>nil\<close>. Writing a field through a nil pointer panics; the model
  returns \<open>Inl NilPointerDereference\<close> there.
\<close>

datatype panic = NilPointerDereference

record parser =
  suggestions :: "Suggestion list"
  current :: "Suggestion option"
  multiLineField :: string
  multiLineContent :: "string list"
  inMultiLine :: bool
  lastField :: string

definition initParser :: parser where
  "initParser =
     \<lparr>suggestions = [], current = None, multiLineField = [], multiLineContent = [],
      inMultiLine = False, lastField = []\<rparr>"

text \<open>The chain of \<^verbatim>\<open>hasPrefix\<close> tests on a line of a record, in the source's order.\<close>

definition parseField :: "string \<Rightarrow> parser \<Rightarrow> Suggestion \<Rightarrow> parser" where
  "parseField line st cur =
     (if hasPrefix line ''LINE:'' then
        st\<lparr>current := Some (cur\<lparr>Line := parseIntValue line ''LINE:''\<rparr>)\<rparr>
      else if hasPrefix line ''END_LINE:'' then
        st\<lparr>current := Some (cur\<lparr>EndLine := parseIntValue line ''END_LINE:''\<rparr>)\<rparr>
      else if hasPrefix line ''SEVERITY:'' then
        st\<lparr>current := Some (cur\<lparr>Severity := parseStringValue line ''SEVERITY:''\<rparr>)\<rparr>
      else if hasPrefix line ''CONFIDENCE:'' then
        st\<lparr>current := Some (cur\<lparr>Confidence := parseStringValue line ''CONFIDENCE:''\<rparr>)\<rparr>
      else if hasPrefix line ''CATEGORY:'' then
        st\<lparr>current := Some (cur\<lparr>Category := parseStringValue line ''CATEGORY:''\<rparr>)\<rparr>
      else if hasPrefix line ''TITLE:'' then
        st\<lparr>current := Some (cur\<lparr>Title := parseStringValue line ''TITLE:''\<rparr>)\<rparr>
      else if hasPrefix line ''DESCRIPTION:'' then
        st\<lparr>current := Some (cur\<lparr>Description := parseStringValue line ''DESCRIPTION:''\<rparr>)\<rparr>
      else if hasPrefix line ''ORIGINAL:'' then
        (let rest = parseStringValue line ''ORIGINAL:'' in
         st\<lparr>lastField := ''ORIGINAL'',
            current := Some (if rest \<noteq> [] \<and> rest \<noteq> ''N/A'' then cur\<lparr>OriginalCode := rest\<rparr>
                             else if rest = ''N/A'' then cur\<lparr>OriginalCode := []\<rparr>
                             else cur)\<rparr>)
      else if hasPrefix line ''FIX:'' then
        (let rest = parseStringValue line ''FIX:'' in
         st\<lparr>lastField := ''FIX'',
            current := Some (if rest \<noteq> [] \<and> rest \<noteq> ''N/A'' then cur\<lparr>SuggestFix := rest\<rparr>
                             else if rest = ''N/A'' then cur\<lparr>SuggestFix := []\<rparr>
                             else cur)\<rparr>)
      else st)"

text \<open>The record held in \<open>current\<close> is appended when it has a title.\<close>

definition flush :: "parser \<Rightarrow> Suggestion list" where
  "flush st =
     (case current st of
        None \<Rightarrow> suggestions st
      | Some cur \<Rightarrow> if Title cur \<noteq> [] then suggestions st @ [cur] else suggestions st)"

text \<open>One iteration of the loop over the lines.\<close>

definition step :: "string \<Rightarrow> parser \<Rightarrow> string \<Rightarrow> panic + parser" where
  "step file st line =
     (if inMultiLine st \<and> line = ''>>>'' then
        (case current st of
           None \<Rightarrow>
             if multiLineField st = ''ORIGINAL'' \<or> multiLineField st = ''FIX''
             then Inl NilPointerDereference
             else Inr (st\<lparr>inMultiLine := False, multiLineField := [], multiLineContent := []\<rparr>)
         | Some cur \<Rightarrow>
             Inr (st\<lparr>current :=
                       Some (if multiLineField st = ''ORIGINAL''
                             then cur\<lparr>OriginalCode := joinLines (multiLineContent st)\<rparr>
                             else if multiLineField st = ''FIX''
                             then cur\<lparr>SuggestFix := joinLines (multiLineContent st)\<rparr>
                             else cur),
                     inMultiLine := False, multiLineField := [], multiLineContent := []\<rparr>))
      else if inMultiLine st then
        Inr (st\<lparr>multiLineContent := multiLineContent st @ [line]\<rparr>)
      else if line = ''---'' then
        Inr (st\<lparr>suggestions := flush st, current := Some (newSuggestion file),
                lastField := []\<rparr>)
      else
        (case current st of
           None \<Rightarrow> Inr st
         | Some cur \<Rightarrow>
             if line = ''<<<'' then
               Inr (st\<lparr>multiLineField := lastField st, inMultiLine := True,
                       multiLineContent := []\<rparr>)
             else Inr (parseField line st cur)))"

fun run :: "string \<Rightarrow> parser \<Rightarrow> string list \<Rightarrow> panic + parser" where
  "run file st [] = Inr st"
| "run file st (l # ls) =
     (case step file st l of Inl e \<Rightarrow> Inl e | Inr st' \<Rightarrow> run file st' ls)"

definition parseLines :: "string list \<Rightarrow> string \<Rightarrow> panic + Suggestion list" where
  "parseLines ls file =
     (case run file initParser ls of Inl e \<Rightarrow> Inl e | Inr st \<Rightarrow> Inr (flush st))"

definition parseStructuredResponse :: "string \<Rightarrow> string \<Rightarrow> panic + Suggestion list" where
  "parseStructuredResponse response file = parseLines (splitLines response) file"

text \<open>
  \<^verbatim>\<open>parseReviewResponse\<close> returns the suggestions and an \<^verbatim>\<open>error\<close>; the error is
  \<^verbatim>\<open>nil\<close> (\<open>None\<close>) on both of its return statements.
\<close>

type_synonym error = string

definition parseReviewResponse ::
  "string \<Rightarrow> string \<Rightarrow> panic + (Suggestion list \<times> error option)" where
  "parseReviewResponse response file =
     (if response = ''NO_ISSUES'' \<or> response = [] then Inr ([], None)
      else (case parseStructuredResponse response file of
              Inl e \<Rightarrow> Inl e
            | Inr sugs \<Rightarrow> Inr (sugs, None)))"

section \<open>The change filter\<close>

text \<open>\<^verbatim>\<open>git.FileChange\<close>.\<close>

record FileChange =
  Path :: string
  Status :: string
  OldPath :: string
  Diff :: string
  Content :: string
  IsBinary :: bool

text \<open>
  \<^verbatim>\<open>filepath.ToSlash\<close> replaces the platform's separator by a slash; where the
  separator is the slash (every platform but Windows) it returns its argument.
  \<^verbatim>\<open>filepath.Base\<close> returns the last element of a path: trailing slashes are removed
  first, the empty path gives a dot and a path of slashes only gives a slash.
\<close>

definition ToSlash :: "string \<Rightarrow> string" where
  "ToSlash path = path"

definition Base :: "string \<Rightarrow> string" where
  "Base path =
     (if path = [] then ''.''
      else let p = rev (dropWhile (\<lambda>c. c = CHR ''/'') (rev path));
               b = rev (takeWhile (\<lambda>c. c \<noteq> CHR ''/'') (rev p))
           in if b = [] then ''/'' else b)"

text \<open>
  \<^verbatim>\<open>filepath.Match(pattern, name)\<close> is the glob matcher of Go's library. It is a
  parameter of the model: a function from the pattern and the name to the pair
  \<^verbatim>\<open>(matched, err)\<close> it returns, where \<open>err\<close> is \<open>None\<close> for \<^verbatim>\<open>nil\<close> and
  \<^verbatim>\<open>ErrBadPattern\<close> otherwise.
\<close>

type_synonym matcher = "string \<Rightarrow> string \<Rightarrow> bool \<times> error option"

text \<open>
  The body of the loop of \<^verbatim>\<open>shouldIgnoreFile\<close> for one pattern: \<open>True\<close> where the
  source returns \<^verbatim>\<open>true\<close>. The error of a \<^verbatim>\<open>Match\<close> call is only printed (in verbose
  mode), and \<open>matched\<close> decides. The two slices of the pattern are taken under the
  \<^verbatim>\<open>HasSuffix\<close> and \<^verbatim>\<open>HasPrefix\<close> tests that keep them in range.
\<close>

definition patternIgnores :: "matcher \<Rightarrow> string \<Rightarrow> string \<Rightarrow> string \<Rightarrow> bool" where
  "patternIgnores Match normalizedPath baseName pattern =
     (let normalizedPattern = ToSlash pattern in
      if fst (Match normalizedPattern normalizedPath) then True
      else if fst (Match normalizedPattern baseName) then True
      else if hasSuffix normalizedPattern ''/*''
              \<and> (let dir = take (length normalizedPattern - 2) normalizedPattern
                 in hasPrefix normalizedPath (dir @ ''/'')
                    \<or> contains normalizedPath (''/'' @ dir @ ''/''))
      then True
      else if contains normalizedPattern ''**'' \<and> hasPrefix normalizedPattern ''**/''
      then (let suffix = drop 3 normalizedPattern in
            if hasSuffix suffix ''/*''
            then (let dir = take (length suffix - 2) suffix
                  in contains normalizedPath (''/'' @ dir @ ''/'')
                     \<or> hasPrefix normalizedPath (dir @ ''/''))
            else fst (Match suffix baseName))
      else False)"

fun ignoredByAny :: "matcher \<Rightarrow> string \<Rightarrow> string \<Rightarrow> string list \<Rightarrow> bool" where
  "ignoredByAny Match normalizedPath baseName [] = False"
| "ignoredByAny Match normalizedPath baseName (pattern # patterns) =
     (if patternIgnores Match normalizedPath baseName pattern then True
      else ignoredByAny Match normalizedPath baseName patterns)"

definition shouldIgnoreFile :: "matcher \<Rightarrow> string \<Rightarrow> string list \<Rightarrow> bool" where
  "shouldIgnoreFile Match filePath patterns =
     ignoredByAny Match (ToSlash filePath) (Base filePath) patterns"

text \<open>
  The filter of \<^verbatim>\<open>runReview\<close>: the configured maximum, where 0 stands for the default
  of 100000 bytes, and the loop that keeps the changes that are neither ignored nor
  larger than the maximum.
\<close>

definition DefaultMaxFileSize :: int where
  "DefaultMaxFileSize = 100000"

definition effectiveMaxFileSize :: "int \<Rightarrow> int" where
  "effectiveMaxFileSize configured =
     (if configured = 0 then DefaultMaxFileSize else configured)"

fun filterLoop ::
  "matcher \<Rightarrow> string list \<Rightarrow> int \<Rightarrow> FileChange list \<Rightarrow> FileChange list \<Rightarrow> FileChange list" where
  "filterLoop Match ignorePatterns maxFileSize filteredChanges [] = filteredChanges"
| "filterLoop Match ignorePatterns maxFileSize filteredChanges (change # changes) =
     (if shouldIgnoreFile Match (Path change) ignorePatterns
      then filterLoop Match ignorePatterns maxFileSize filteredChanges changes
      else if int (length (Content change)) > maxFileSize
      then filterLoop Match ignorePatterns maxFileSize filteredChanges changes
      else filterLoop Match ignorePatterns maxFileSize (filteredChanges @ [change]) changes)"

definition filterChanges ::
  "matcher \<Rightarrow> string list \<Rightarrow> int \<Rightarrow> FileChange list \<Rightarrow> FileChange list" where
  "filterChanges Match ignorePatterns configured changes =
     filterLoop Match ignorePatterns (effectiveMaxFileSize configured) [] changes"

section \<open>The review orchestrator\<close>

record ReviewResult =
  Files :: "string list"
  Suggestions :: "Suggestion list"
  Summary :: string

text \<open>
  The fields of \<^verbatim>\<open>Reviewer\<close> but the client. The client's \<^verbatim>\<open>Chat(model, prompt)\<close> is a
  parameter: a function of the state \<open>'w\<close> of the assistant and of the two arguments
  to the reply, the error and the next state, so that every behaviour of the assistant
  is some \<open>chat\<close>.
\<close>

record Reviewer =
  model :: string
  standardsContext :: string
  projectHints :: "string list"
  tolerance :: string

type_synonym 'w chat = "'w \<Rightarrow> string \<Rightarrow> string \<Rightarrow> (string \<times> error option) \<times> 'w"

text \<open>
  \<^verbatim>\<open>buildReviewPrompt\<close>. The long literals of the source (the guidance for each
  tolerance, and the instructions before and after it) are the fields of \<open>promptText\<close>;
  the short ones are written out.
\<close>

record promptText =
  strictGuidance :: string
  relaxedGuidance :: string
  moderateGuidance :: string
  guidelines :: string
  formatContract :: string

definition buildReviewPrompt ::
  "promptText \<Rightarrow> FileChange \<Rightarrow> string \<Rightarrow> string list \<Rightarrow> string \<Rightarrow> string" where
  "buildReviewPrompt txt change standards hints tol =
     (let toleranceGuidance =
            (if tol = ''strict'' then strictGuidance txt
             else if tol = ''relaxed'' then relaxedGuidance txt
             else moderateGuidance txt);
          basePrompt = guidelines txt @ toleranceGuidance @ formatContract txt;
          basePrompt = (if standards \<noteq> [] then basePrompt @ standards else basePrompt);
          basePrompt =
            (if hints \<noteq> []
             then basePrompt
                  @ ''\<newline>\<newline>PROJECT-SPECIFIC CONTEXT (trust these hints from the developer):\<newline>''
                  @ concat (map (\<lambda>hint. ''- '' @ hint @ ''\<newline>'') hints)
             else basePrompt)
      in basePrompt
         @ ''\<newline>If no issues are found (or only uncertain low-confidence issues in relaxed mode), respond with: NO_ISSUES\<newline>\<newline>File: ''
         @ Path change @ ''\<newline>\<newline>Diff:\<newline>'' @ Diff change
         @ ''\<newline>\<newline>Full staged content:\<newline>'' @ Content change)"

definition reviewFile ::
  "'w chat \<Rightarrow> promptText \<Rightarrow> Reviewer \<Rightarrow> 'w \<Rightarrow> FileChange
   \<Rightarrow> (panic + (Suggestion list \<times> error option)) \<times> 'w" where
  "reviewFile chat txt r w change =
     (let prompt = buildReviewPrompt txt change (standardsContext r) (projectHints r)
                     (tolerance r)
      in case chat w (model r) prompt of
           ((response, Some err), w') \<Rightarrow> (Inr ([], Some err), w')
         | ((response, None), w') \<Rightarrow> (parseReviewResponse response (Path change), w'))"

text \<open>
  The loop of \<^verbatim>\<open>Review\<close> over the changes; the progress lines it prints are not part
  of the model.
\<close>

fun reviewLoop ::
  "'w chat \<Rightarrow> promptText \<Rightarrow> Reviewer \<Rightarrow> ReviewResult \<Rightarrow> 'w \<Rightarrow> FileChange list
   \<Rightarrow> (panic + ReviewResult) \<times> 'w" where
  "reviewLoop chat txt r result w [] = (Inr result, w)"
| "reviewLoop chat txt r result w (change # changes) =
     (let result = result\<lparr>Files := Files result @ [Path change]\<rparr> in
      if IsBinary change then reviewLoop chat txt r result w changes
      else (case reviewFile chat txt r w change of
              (Inl p, w') \<Rightarrow> (Inl p, w')
            | (Inr (sugs, Some err), w') \<Rightarrow> reviewLoop chat txt r result w' changes
            | (Inr (sugs, None), w') \<Rightarrow>
                reviewLoop chat txt r
                  (result\<lparr>Suggestions := Suggestions result @ sugs\<rparr>) w' changes))"

definition Review ::
  "'w chat \<Rightarrow> promptText \<Rightarrow> Reviewer \<Rightarrow> 'w \<Rightarrow> FileChange list
   \<Rightarrow> (panic + (ReviewResult \<times> error option)) \<times> 'w" where
  "Review chat txt r w changes =
     (case reviewLoop chat txt r \<lparr>Files = [], Suggestions = [], Summary = []\<rparr> w changes of
        (Inl p, w') \<Rightarrow> (Inl p, w')
      | (Inr result, w') \<Rightarrow> (Inr (result, None), w'))"

section \<open>The review session\<close>

text \<open>
  \<^verbatim>\<open>strings.ToLower\<close> on ASCII input: the letters A to Z are mapped to a to z and
  every other byte is kept. (On input with bytes outside ASCII Go maps each code point
  by the Unicode tables; the commands of the session are ASCII, and the theorems
  below are about ASCII input.)
\<close>

definition toLowerByte :: "char \<Rightarrow> char" where
  "toLowerByte c =
     (if 65 \<le> (of_char c :: nat) \<and> (of_char c :: nat) \<le> 90
      then char_of (of_char c + (32 :: nat)) else c)"

definition ToLower :: "string \<Rightarrow> string" where
  "ToLower s = map toLowerByte s"

text \<open>
  \<^verbatim>\<open>reader.ReadString('\n')\<close> on the bytes left on standard input: the bytes up to and
  including the first newline; without a newline, all the bytes and the error
  \<^verbatim>\<open>io.EOF\<close>. It returns the line, the error and the bytes left.
\<close>

definition ReadString :: "string \<Rightarrow> string \<times> error option \<times> string" where
  "ReadString input =
     (if NL \<in> set input
      then (takeWhile (\<lambda>c. c \<noteq> NL) input @ [NL], None,
            drop (Suc (length (takeWhile (\<lambda>c. c \<noteq> NL) input))) input)
      else (input, Some ''EOF'', []))"

text \<open>
  The files the session reads and writes. \<open>files\<close> gives the content of each file that
  can be read and \<open>modes\<close> the permission bits \<^verbatim>\<open>os.Stat\<close> reports; \<^verbatim>\<open>os.WriteFile\<close>
  fails on the paths of \<open>readOnly\<close> and leaves them as they are (a write that fails
  half-way is not modelled), and sets the mode only of a file it creates.
  \<^verbatim>\<open>git add\<close> records the path in \<open>gitIndex\<close> unless \<open>gitAddFails\<close>.
\<close>

record filesystem =
  files :: "string \<rightharpoonup> string"
  modes :: "string \<rightharpoonup> nat"
  readOnly :: "string set"
  gitIndex :: "string set"
  gitAddFails :: bool

definition ReadFile :: "filesystem \<Rightarrow> string \<Rightarrow> string option" where
  "ReadFile fs name = files fs name"

definition Stat :: "filesystem \<Rightarrow> string \<Rightarrow> nat option" where
  "Stat fs name = modes fs name"

definition WriteFile :: "filesystem \<Rightarrow> string \<Rightarrow> string \<Rightarrow> nat \<Rightarrow> error option \<times> filesystem" where
  "WriteFile fs name data perm =
     (if name \<in> readOnly fs then (Some ''permission denied'', fs)
      else (None, fs\<lparr>files := (files fs)(name \<mapsto> data),
                      modes := (case modes fs name of
                                  None \<Rightarrow> (modes fs)(name \<mapsto> perm)
                                | Some m \<Rightarrow> modes fs)\<rparr>))"

definition gitAdd :: "filesystem \<Rightarrow> string \<Rightarrow> error option \<times> filesystem" where
  "gitAdd fs name =
     (if gitAddFails fs then (Some ''exit status 128'', fs)
      else (None, fs\<lparr>gitIndex := insert name (gitIndex fs)\<rparr>))"

text \<open>\<^verbatim>\<open>applyFix\<close>: the verdict and the file system it leaves. 420 is octal 0644.\<close>

definition applyFix :: "filesystem \<Rightarrow> Suggestion \<Rightarrow> bool \<times> filesystem" where
  "applyFix fs sug =
     (if SuggestFix sug = [] \<or> SuggestFix sug = ''N/A'' then (False, fs)
      else if OriginalCode sug = [] \<or> OriginalCode sug = ''N/A'' then (False, fs)
      else (case ReadFile fs (File sug) of
              None \<Rightarrow> (False, fs)
            | Some fileContent \<Rightarrow>
                if \<not> contains fileContent (OriginalCode sug) then (False, fs)
                else (let newContent = replaceFirst fileContent (OriginalCode sug) (SuggestFix sug) in
                      if newContent = fileContent then (False, fs)
                      else (let perm = (case Stat fs (File sug) of None \<Rightarrow> 420 | Some m \<Rightarrow> m) in
                            case WriteFile fs (File sug) newContent perm of
                              (Some err, fs') \<Rightarrow> (False, fs')
                            | (None, fs') \<Rightarrow> (True, snd (gitAdd fs' (File sug)))))))"

datatype Action = ActionCommit | ActionAbort | ActionReReview

record SessionOutcome =
  Action :: Action
  Fixed :: nat
  Skipped :: nat

record ReviewSession =
  result :: ReviewResult
  current' :: nat
  fixed :: nat
  skipped :: nat
  suggestions' :: "Suggestion list"
  skippedMap :: "nat \<rightharpoonup> bool"

definition NewReviewSession :: "ReviewResult \<Rightarrow> ReviewSession" where
  "NewReviewSession res =
     \<lparr>result = res, current' = 0, fixed = 0, skipped = 0, suggestions' = Suggestions res,
      skippedMap = Map.empty\<rparr>"

text \<open>The normalisation of a line read: \<^verbatim>\<open>strings.TrimSpace(strings.ToLower(input))\<close>.\<close>

definition command :: "string \<Rightarrow> string" where
  "command input = TrimSpace (ToLower input)"

text \<open>
  The loop of \<^verbatim>\<open>Run\<close> over the suggestions. It returns the outcome when the user
  quits, and \<open>None\<close> when the loop ends, with the session, the file system and the
  input left. \<^verbatim>\<open>viewDiff\<close> and the other printing functions change none of them. Every
  iteration consumes input or, at the end of input, moves to the next suggestion: the
  loop terminates.
\<close>

function sessionLoop ::
  "filesystem \<Rightarrow> ReviewSession \<Rightarrow> string
   \<Rightarrow> SessionOutcome option \<times> ReviewSession \<times> filesystem \<times> string" where
  "sessionLoop fs s stdin =
     (if \<not> current' s < length (suggestions' s) then (None, s, fs, stdin)
      else (let suggestion = suggestions' s ! current' s in
            case ReadString stdin of
              (input, Some err, stdin1) \<Rightarrow>
                sessionLoop fs (s\<lparr>current' := current' s + 1\<rparr>) stdin1
            | (input, None, stdin1) \<Rightarrow>
                if command input = ''f'' \<or> command input = ''fix'' then
                  (case applyFix fs suggestion of
                     (True, fs1) \<Rightarrow>
                       sessionLoop fs1 (s\<lparr>fixed := fixed s + 1, current' := current' s + 1\<rparr>) stdin1
                   | (False, fs1) \<Rightarrow>
                       (case ReadString stdin1 of
                          (confirm, _, stdin2) \<Rightarrow>
                            if command confirm = ''y''
                            then sessionLoop fs1
                                   (s\<lparr>skipped := skipped s + 1,
                                      skippedMap := (skippedMap s)(current' s \<mapsto> True),
                                      current' := current' s + 1\<rparr>) stdin2
                            else sessionLoop fs1 s stdin2))
                else if command input = ''s'' \<or> command input = ''skip'' then
                  sessionLoop fs
                    (s\<lparr>skipped := skipped s + 1,
                       skippedMap := (skippedMap s)(current' s \<mapsto> True),
                       current' := current' s + 1\<rparr>) stdin1
                else if command input = ''v'' \<or> command input = ''view'' then
                  sessionLoop fs s stdin1
                else if command input = ''q'' \<or> command input = ''quit'' then
                  (Some \<lparr>Action = ActionAbort, Fixed = fixed s, Skipped = skipped s\<rparr>,
                   s, fs, stdin1)
                else sessionLoop fs s stdin1))"
  by pat_completeness auto
termination
  by (relation "measure (\<lambda>(fs, s, stdin). length stdin + (length (suggestions' s) - current' s))")
     (auto simp: ReadString_def split: if_splits dest: split_list)

declare sessionLoop.simps [simp del]

text \<open>\<^verbatim>\<open>remaining\<close> as \<^verbatim>\<open>printSummary\<close> computes it.\<close>

definition remaining :: "ReviewSession \<Rightarrow> int" where
  "remaining s = int (length (suggestions' s)) - int (fixed s) - int (skipped s)"

definition Run ::
  "filesystem \<Rightarrow> ReviewSession \<Rightarrow> string
   \<Rightarrow> SessionOutcome \<times> ReviewSession \<times> filesystem \<times> string" where
  "Run fs s stdin =
     (let total = length (suggestions' s) in
      if total = 0 then (\<lparr>Action = ActionCommit, Fixed = 0, Skipped = 0\<rparr>, s, fs, stdin)
      else (case sessionLoop fs s stdin of
              (Some outcome, s1, fs1, stdin1) \<Rightarrow> (outcome, s1, fs1, stdin1)
            | (None, s1, fs1, stdin1) \<Rightarrow>
                (case ReadString stdin1 of
                   (input, _, stdin2) \<Rightarrow>
                     (\<lparr>Action =
                         (if command input = ''y'' \<or> command input = ''yes''
                          then ActionCommit
                          else if command input = ''r'' \<or> command input = ''re-review''
                          then ActionReReview
                          else ActionAbort),
                       Fixed = fixed s1, Skipped = skipped s1\<rparr>, s1, fs1, stdin2))))"

section \<open>Invariants of the parser\<close>

text \<open>
  The only pointer the parser writes through is \<open>current\<close>. A block can only be
  opened while a record is open, and a record, once open, is replaced but never
  closed: so inside a block \<open>current\<close> is not nil.
\<close>

definition parserOk :: "parser \<Rightarrow> bool" where
  "parserOk st = (inMultiLine st \<longrightarrow> current st \<noteq> None)"

text \<open>Every record emitted so far has a title; no record so far has one.\<close>

definition titled :: "parser \<Rightarrow> bool" where
  "titled st = (\<forall>s\<in>set (suggestions st). Title s \<noteq> [])"

definition untitled :: "parser \<Rightarrow> bool" where
  "untitled st = (suggestions st = [] \<and> (\<forall>c. current st = Some c \<longrightarrow> Title c = []))"

text \<open>
  Every record emitted after the records \<open>base\<close>, and the open record, has no ending
  line; every record, emitted or open, is of the file \<open>file\<close>.
\<close>

definition endLineUnset :: "Suggestion list \<Rightarrow> parser \<Rightarrow> bool" where
  "endLineUnset base st =
     (\<exists>more. suggestions st = base @ more \<and> (\<forall>s\<in>set more. EndLine s = 0)
        \<and> (\<forall>c. current st = Some c \<longrightarrow> EndLine c = 0))"

definition filed :: "string \<Rightarrow> parser \<Rightarrow> bool" where
  "filed file st =
     ((\<forall>s\<in>set (suggestions st). File s = file)
      \<and> (\<forall>c. current st = Some c \<longrightarrow> File c = file))"

section \<open>The orchestrator's loop in closed form\<close>

text \<open>
  What one change contributes to the result of \<^verbatim>\<open>Review\<close> and the state it leaves the
  assistant in, and both along a list of changes.
\<close>

definition fileSuggestions ::
  "'w chat \<Rightarrow> promptText \<Rightarrow> Reviewer \<Rightarrow> 'w \<Rightarrow> FileChange \<Rightarrow> Suggestion list" where
  "fileSuggestions chat txt r w change =
     (if IsBinary change then []
      else (case fst (reviewFile chat txt r w change) of
              Inr (sugs, None) \<Rightarrow> sugs
            | _ \<Rightarrow> []))"

definition nextWorld :: "'w chat \<Rightarrow> promptText \<Rightarrow> Reviewer \<Rightarrow> 'w \<Rightarrow> FileChange \<Rightarrow> 'w" where
  "nextWorld chat txt r w change =
     (if IsBinary change then w else snd (reviewFile chat txt r w change))"

fun allSuggestions ::
  "'w chat \<Rightarrow> promptText \<Rightarrow> Reviewer \<Rightarrow> 'w \<Rightarrow> FileChange list \<Rightarrow> Suggestion list" where
  "allSuggestions chat txt r w [] = []"
| "allSuggestions chat txt r w (change # changes) =
     fileSuggestions chat txt r w change
     @ allSuggestions chat txt r (nextWorld chat txt r w change) changes"

fun finalWorld :: "'w chat \<Rightarrow> promptText \<Rightarrow> Reviewer \<Rightarrow> 'w \<Rightarrow> FileChange list \<Rightarrow> 'w" where
  "finalWorld chat txt r w [] = w"
| "finalWorld chat txt r w (change # changes) =
     finalWorld chat txt r (nextWorld chat txt r w change) changes"

section \<open>Lemmas about the response parser\<close>

lemma parserOk_init: "parserOk initParser"
  by (simp add: parserOk_def initParser_def)

lemma step_Inr:
  assumes "parserOk st"
  shows "\<exists>st'. step file st line = Inr st' \<and> parserOk st'"
  using assms
  by (auto simp: step_def parserOk_def parseField_def Let_def split: option.splits)

lemma run_Inr:
  "parserOk st \<Longrightarrow> \<exists>st'. run file st ls = Inr st' \<and> parserOk st'"
proof (induction ls arbitrary: st)
  case Nil
  then show ?case by simp
next
  case (Cons l ls)
  from step_Inr [OF Cons.prems] obtain st1
    where s: "step file st l = Inr st1" "parserOk st1"
    by blast
  from Cons.IH [OF s(2)] s(1) show ?case by simp
qed

lemma run_append:
  "run file st (xs @ ys) =
     (case run file st xs of Inl e \<Rightarrow> Inl e | Inr st' \<Rightarrow> run file st' ys)"
  by (induction xs arbitrary: st) (auto split: sum.splits)

lemma run_init_Inr: "\<exists>st. run file initParser ls = Inr st \<and> parserOk st"
  by (rule run_Inr [OF parserOk_init])

lemma run_invariant:
  assumes "run file st ls = Inr st'" and "P st"
    and "\<And>st l st'. P st \<Longrightarrow> l \<in> set ls \<Longrightarrow> step file st l = Inr st' \<Longrightarrow> P st'"
  shows "P st'"
  using assms
proof (induction ls arbitrary: st)
  case Nil
  then show ?case by simp
next
  case (Cons l ls)
  from Cons.prems(1) obtain st1 where s: "step file st l = Inr st1" "run file st1 ls = Inr st'"
    by (auto split: sum.splits)
  have "P st1" by (rule Cons.prems(3) [OF Cons.prems(2) list.set_intros(1) s(1)])
  moreover have "\<And>st l' st'. P st \<Longrightarrow> l' \<in> set ls \<Longrightarrow> step file st l' = Inr st' \<Longrightarrow> P st'"
    by (rule Cons.prems(3) [OF _ list.set_intros(2)])
  ultimately show ?case using Cons.IH [OF s(2)] by blast
qed

lemma parseField_keeps [simp]:
  "suggestions (parseField line st cur) = suggestions st"
  "inMultiLine (parseField line st cur) = inMultiLine st"
  "multiLineField (parseField line st cur) = multiLineField st"
  "multiLineContent (parseField line st cur) = multiLineContent st"
  by (simp_all add: parseField_def Let_def)

lemma parseField_current:
  assumes "current st = Some cur"
  shows "\<exists>c. current (parseField line st cur) = Some c \<and> File c = File cur
            \<and> (\<not> hasPrefix line ''END_LINE:'' \<longrightarrow> EndLine c = EndLine cur)
            \<and> (\<not> hasPrefix line ''TITLE:'' \<longrightarrow> Title c = Title cur)"
  using assms by (simp add: parseField_def Let_def)

lemma flush_titled: "titled st \<Longrightarrow> \<forall>s\<in>set (flush st). Title s \<noteq> []"
  by (auto simp: titled_def flush_def split: option.splits)

lemma step_titled:
  assumes "titled st" "step file st l = Inr st'"
  shows "titled st'"
proof -
  have "suggestions st' = suggestions st \<or> suggestions st' = flush st"
    using assms(2)
    by (auto simp: step_def split: if_splits option.splits)
  with flush_titled [OF assms(1)] assms(1) show ?thesis
    by (auto simp: titled_def)
qed

lemma parse_titled:
  assumes "parseReviewResponse response file = Inr (sugs, err)"
  shows "\<forall>s\<in>set sugs. Title s \<noteq> []"
proof (cases "response = ''NO_ISSUES'' \<or> response = []")
  case True
  with assms show ?thesis by (auto simp: parseReviewResponse_def)
next
  case False
  with assms obtain st where r: "run file initParser (splitLines response) = Inr st"
    and f: "sugs = flush st"
    by (auto simp: parseReviewResponse_def parseStructuredResponse_def parseLines_def
        split: sum.splits)
  have "titled initParser" by (simp add: titled_def initParser_def)
  from run_invariant [where P = titled, OF r this] step_titled have "titled st" by blast
  with f flush_titled show ?thesis by blast
qed

lemma step_untitled:
  assumes "untitled st" "\<not> hasPrefix l ''TITLE:''" "step file st l = Inr st'"
  shows "untitled st'"
proof (cases "current st")
  case None
  with assms show ?thesis
    by (auto simp: step_def untitled_def flush_def newSuggestion_def split: if_splits)
next
  case (Some cur)
  from parseField_current [OF Some, of l] assms(2)
  obtain c where c: "current (parseField l st cur) = Some c" "Title c = Title cur"
    by blast
  with Some assms show ?thesis
    by (auto simp: step_def untitled_def flush_def newSuggestion_def split: if_splits)
qed

lemma no_title_no_suggestion:
  assumes "\<forall>l\<in>set (splitLines response). \<not> hasPrefix l ''TITLE:''"
  shows "parseReviewResponse response file = Inr ([], None)"
proof -
  from run_init_Inr obtain st where r: "run file initParser (splitLines response) = Inr st"
    by blast
  have "untitled initParser" by (simp add: untitled_def initParser_def)
  from run_invariant [where P = untitled, OF r this] step_untitled assms
  have "untitled st" by blast
  then have "flush st = []" by (auto simp: untitled_def flush_def split: option.splits)
  with r show ?thesis
    by (simp add: parseReviewResponse_def parseStructuredResponse_def parseLines_def)
qed


lemma step_separator:
  "\<not> inMultiLine st \<Longrightarrow>
   step file st ''---'' =
     Inr (st\<lparr>suggestions := flush st, current := Some (newSuggestion file), lastField := []\<rparr>)"
  by (simp add: step_def)

lemma step_in_block:
  "inMultiLine st \<Longrightarrow> l \<noteq> ''>>>'' \<Longrightarrow>
   step file st l = Inr (st\<lparr>multiLineContent := multiLineContent st @ [l]\<rparr>)"
  by (simp add: step_def)

lemma run_block_body:
  "inMultiLine st \<Longrightarrow> ''>>>'' \<notin> set body \<Longrightarrow>
   run file st body = Inr (st\<lparr>multiLineContent := multiLineContent st @ body\<rparr>)"
proof (induction body arbitrary: st)
  case Nil
  then show ?case by simp
next
  case (Cons l body)
  from Cons.prems have l: "l \<noteq> ''>>>''" and b: "''>>>'' \<notin> set body" by auto
  have i: "inMultiLine (st\<lparr>multiLineContent := multiLineContent st @ [l]\<rparr>)"
    using Cons.prems(1) by simp
  show ?case
    using Cons.IH [OF i b] step_in_block [OF Cons.prems(1) l] by simp
qed

lemma step_open:
  "current st = Some cur \<Longrightarrow> \<not> inMultiLine st \<Longrightarrow>
   step file st ''<<<'' =
     Inr (st\<lparr>multiLineField := lastField st, inMultiLine := True, multiLineContent := []\<rparr>)"
  by (simp add: step_def)

lemma step_close:
  "current st = Some cur \<Longrightarrow> inMultiLine st \<Longrightarrow>
   step file st ''>>>'' =
     Inr (st\<lparr>current :=
               Some (if multiLineField st = ''ORIGINAL''
                     then cur\<lparr>OriginalCode := joinLines (multiLineContent st)\<rparr>
                     else if multiLineField st = ''FIX''
                     then cur\<lparr>SuggestFix := joinLines (multiLineContent st)\<rparr>
                     else cur),
             inMultiLine := False, multiLineField := [], multiLineContent := []\<rparr>)"
  by (simp add: step_def)

lemma run_block:
  assumes "current st = Some cur" "\<not> inMultiLine st" "''>>>'' \<notin> set body"
  shows "run file st (''<<<'' # body @ [''>>>'']) =
     Inr (st\<lparr>current :=
               Some (if lastField st = ''ORIGINAL'' then cur\<lparr>OriginalCode := joinLines body\<rparr>
                     else if lastField st = ''FIX'' then cur\<lparr>SuggestFix := joinLines body\<rparr>
                     else cur),
             inMultiLine := False, multiLineField := [], multiLineContent := []\<rparr>)"
proof -
  let ?o = "st\<lparr>multiLineField := lastField st, inMultiLine := True, multiLineContent := []\<rparr>"
  let ?b = "?o\<lparr>multiLineContent := multiLineContent ?o @ body\<rparr>"
  have 1: "step file st ''<<<'' = Inr ?o" by (rule step_open [OF assms(1,2)])
  have 2: "run file ?o body = Inr ?b" by (rule run_block_body) (simp_all add: assms(3))
  have 3: "step file ?b ''>>>'' = Inr
     (?b\<lparr>current :=
               Some (if multiLineField ?b = ''ORIGINAL''
                     then cur\<lparr>OriginalCode := joinLines (multiLineContent ?b)\<rparr>
                     else if multiLineField ?b = ''FIX''
                     then cur\<lparr>SuggestFix := joinLines (multiLineContent ?b)\<rparr>
                     else cur),
             inMultiLine := False, multiLineField := [], multiLineContent := []\<rparr>)"
    by (rule step_close) (simp_all add: assms(1))
  show ?thesis
    using 1 2 3 by (simp add: run_append)
qed

lemma step_ORIGINAL:
  "current st = Some cur \<Longrightarrow> \<not> inMultiLine st \<Longrightarrow>
   step file st ''ORIGINAL:'' = Inr (st\<lparr>lastField := ''ORIGINAL''\<rparr>)"
  by (simp add: step_def parseField_def hasPrefix_def parseStringValue_def)

lemma step_FIX:
  "current st = Some cur \<Longrightarrow> \<not> inMultiLine st \<Longrightarrow>
   step file st ''FIX:'' = Inr (st\<lparr>lastField := ''FIX''\<rparr>)"
  by (simp add: step_def parseField_def hasPrefix_def parseStringValue_def)

lemma step_endLineUnset:
  assumes "endLineUnset base st" "\<not> hasPrefix l ''END_LINE:''" "step file st l = Inr st'"
  shows "endLineUnset base st'"
proof (cases "current st")
  case None
  with assms show ?thesis
    by (auto simp: step_def endLineUnset_def flush_def newSuggestion_def split: if_splits)
next
  case (Some cur)
  from parseField_current [OF Some, of l] assms(2)
  obtain c where c: "current (parseField l st cur) = Some c" "EndLine c = EndLine cur"
    by blast
  with Some assms show ?thesis
    by (auto simp: step_def endLineUnset_def flush_def newSuggestion_def split: if_splits)
qed

lemma flush_endLineUnset:
  "endLineUnset base st \<Longrightarrow> \<exists>more. flush st = base @ more \<and> (\<forall>s\<in>set more. EndLine s = 0)"
  by (auto simp: endLineUnset_def flush_def split: option.splits)

lemma splitLines_not_Nil [simp]: "splitLines s \<noteq> []"
  by (induction s) (auto split: list.splits)

lemma splitLines_append: "splitLines (a @ NL # b) = splitLines a @ splitLines b"
proof (induction a)
  case Nil
  then show ?case by simp
next
  case (Cons c a)
  obtain l ls where "splitLines a = l # ls"
    using splitLines_not_Nil [of a] by (cases "splitLines a") auto
  with Cons show ?case by simp
qed

lemma splitLines_open: "splitLines ''<<<'' = [''<<<'']"
  by (simp add: NL_def)

lemma splitLines_open_body: "splitLines (''<<<'' @ NL # body) = ''<<<'' # splitLines body"
  using splitLines_append [of "''<<<''" body] by (simp only: splitLines_open append_Cons append_Nil)

lemma step_filed:
  assumes "filed file st" "step file st l = Inr st'"
  shows "filed file st'"
proof (cases "current st")
  case None
  with assms show ?thesis
    by (auto simp: step_def filed_def flush_def newSuggestion_def split: if_splits)
next
  case (Some cur)
  from parseField_current [OF Some, of l]
  obtain c where c: "current (parseField l st cur) = Some c" "File c = File cur"
    by blast
  with Some assms show ?thesis
    by (auto simp: step_def filed_def flush_def newSuggestion_def split: if_splits)
qed

lemma parse_filed:
  assumes "parseReviewResponse response file = Inr (sugs, err)"
  shows "\<forall>s\<in>set sugs. File s = file"
proof (cases "response = ''NO_ISSUES'' \<or> response = []")
  case True
  with assms show ?thesis by (auto simp: parseReviewResponse_def)
next
  case False
  with assms obtain st where r: "run file initParser (splitLines response) = Inr st"
    and f: "sugs = flush st"
    by (auto simp: parseReviewResponse_def parseStructuredResponse_def parseLines_def
        split: sum.splits)
  have "filed file initParser" by (simp add: filed_def initParser_def)
  from run_invariant [where P = "filed file", OF r this] step_filed have "filed file st" by blast
  with f show ?thesis by (auto simp: filed_def flush_def split: option.splits if_splits)
qed

section \<open>Claims about the response parser\<close>

text \<open>
  Claim C2 (round trip of the suggestion protocol). A reply of one record in the
  documented format, with LINE 10, END_LINE 12, SEVERITY warning, CONFIDENCE medium,
  CATEGORY bug, TITLE t, DESCRIPTION d, an ORIGINAL block of the two lines foo and bar
  and a FIX block of the two lines foo and baz, parses to exactly one suggestion with
  these values, for the file under review. The record may be closed by the final
  separator \<^verbatim>\<open>---\<close> of the format or by the end of the reply.
\<close>

theorem roundtrip_one_record:
  "parseReviewResponse
     ''---\<newline>LINE: 10\<newline>END_LINE: 12\<newline>SEVERITY: warning\<newline>CONFIDENCE: medium\<newline>CATEGORY: bug\<newline>TITLE: t\<newline>DESCRIPTION: d\<newline>ORIGINAL:\<newline><<<\<newline>foo\<newline>bar\<newline>>>>\<newline>FIX:\<newline><<<\<newline>foo\<newline>baz\<newline>>>>\<newline>---''
     file
   = Inr ([\<lparr>File = file, Line = 10, EndLine = 12, Severity = ''warning'',
            Confidence = ''medium'', Title = ''t'', Description = ''d'',
            OriginalCode = ''foo\<newline>bar'', SuggestFix = ''foo\<newline>baz'',
            Category = ''bug''\<rparr>], None)
   \<and> parseReviewResponse
     ''---\<newline>LINE: 10\<newline>END_LINE: 12\<newline>SEVERITY: warning\<newline>CONFIDENCE: medium\<newline>CATEGORY: bug\<newline>TITLE: t\<newline>DESCRIPTION: d\<newline>ORIGINAL:\<newline><<<\<newline>foo\<newline>bar\<newline>>>>\<newline>FIX:\<newline><<<\<newline>foo\<newline>baz\<newline>>>>''
     file
   = Inr ([\<lparr>File = file, Line = 10, EndLine = 12, Severity = ''warning'',
            Confidence = ''medium'', Title = ''t'', Description = ''d'',
            OriginalCode = ''foo\<newline>bar'', SuggestFix = ''foo\<newline>baz'',
            Category = ''bug''\<rparr>], None)"
  by code_simp

text \<open>
  Claim C3 (the parser is total and raises no error). For every reply and file,
  \<open>parseReviewResponse\<close> returns a list of suggestions and the nil error: it neither
  panics nor reports an error. The reply \<^verbatim>\<open>NO_ISSUES\<close> and the empty reply give no
  suggestion.
\<close>

theorem parser_total:
  "(\<exists>sugs. parseReviewResponse response file = Inr (sugs, None))
   \<and> parseReviewResponse ''NO_ISSUES'' file = Inr ([], None)
   \<and> parseReviewResponse [] file = Inr ([], None)"
proof -
  from run_init_Inr obtain st
    where "run file initParser (splitLines response) = Inr st"
    by blast
  then show ?thesis
    by (simp add: parseReviewResponse_def parseStructuredResponse_def parseLines_def)
qed


text \<open>
  Claim C4 (every emitted suggestion has a title). Whatever the reply, every
  suggestion the parser returns has a non-empty title. A record without a title is
  dropped: a reply in which no line starts with \<^verbatim>\<open>TITLE:\<close> gives no suggestion, and
  in the reply of the last conjunct the first record, which has no title, is dropped
  while the second is returned. A \<^verbatim>\<open>LINE:\<close> value that \<^verbatim>\<open>strconv.Atoi\<close> rejects gives
  line 0 and the parse goes on: the second record of that reply has \<^verbatim>\<open>LINE: abc\<close>.
\<close>

theorem emitted_titles_nonempty:
  assumes "parseReviewResponse response file = Inr (sugs, err)"
  shows "(\<forall>s\<in>set sugs. Title s \<noteq> [])
     \<and> ((\<forall>l\<in>set (splitLines response). \<not> hasPrefix l ''TITLE:'') \<longrightarrow> sugs = [])
     \<and> (Atoi (parseStringValue line ''LINE:'') = None \<longrightarrow> parseIntValue line ''LINE:'' = 0)
     \<and> parseReviewResponse
          ''---\<newline>LINE: 3\<newline>DESCRIPTION: d\<newline>---\<newline>LINE: abc\<newline>TITLE: u'' file
        = Inr ([\<lparr>File = file, Line = 0, EndLine = 0, Severity = [], Confidence = [],
                 Title = ''u'', Description = [], OriginalCode = [], SuggestFix = [],
                 Category = []\<rparr>], None)"
proof -
  have 1: "\<forall>s\<in>set sugs. Title s \<noteq> []"
    by (rule parse_titled [OF assms])
  have 2: "(\<forall>l\<in>set (splitLines response). \<not> hasPrefix l ''TITLE:'') \<longrightarrow> sugs = []"
    using no_title_no_suggestion [of response "file"] assms by auto
  have 3: "Atoi (parseStringValue line ''LINE:'') = None \<longrightarrow> parseIntValue line ''LINE:'' = 0"
    by (simp add: parseIntValue_def)
  have 4: "parseReviewResponse
          ''---\<newline>LINE: 3\<newline>DESCRIPTION: d\<newline>---\<newline>LINE: abc\<newline>TITLE: u'' file
        = Inr ([\<lparr>File = file, Line = 0, EndLine = 0, Severity = [], Confidence = [],
                 Title = ''u'', Description = [], OriginalCode = [], SuggestFix = [],
                 Category = []\<rparr>], None)"
    by code_simp
  from 1 2 3 4 show ?thesis by blast
qed

text \<open>
  The theorem at a reply of three records, the second without a title, and at the
  line \<^verbatim>\<open>LINE: abc\<close>.
\<close>

theorem emitted_titles_nonempty_witness:
  "parseReviewResponse ''---\<newline>TITLE: a\<newline>---\<newline>DESCRIPTION: d\<newline>---\<newline>TITLE: b'' ''f.go''
     = Inr ([(newSuggestion ''f.go'')\<lparr>Title := ''a''\<rparr>, (newSuggestion ''f.go'')\<lparr>Title := ''b''\<rparr>], None)
   \<and> Title ((newSuggestion ''f.go'')\<lparr>Title := ''a''\<rparr>) \<noteq> []
   \<and> Title ((newSuggestion ''f.go'')\<lparr>Title := ''b''\<rparr>) \<noteq> []
   \<and> Atoi (parseStringValue ''LINE: abc'' ''LINE:'') = None
   \<and> parseIntValue ''LINE: abc'' ''LINE:'' = 0"
proof -
  have h: "parseReviewResponse ''---\<newline>TITLE: a\<newline>---\<newline>DESCRIPTION: d\<newline>---\<newline>TITLE: b'' ''f.go''
     = Inr ([(newSuggestion ''f.go'')\<lparr>Title := ''a''\<rparr>, (newSuggestion ''f.go'')\<lparr>Title := ''b''\<rparr>], None)"
    by code_simp
  have a: "Atoi (parseStringValue ''LINE: abc'' ''LINE:'') = None"
    by code_simp
  from emitted_titles_nonempty [OF h, of "''LINE: abc''"] h a show ?thesis
    by simp
qed

text \<open>
  Claim C6 (blocks of the parser's state machine), as amended. While a record is open
  and no block is open, a line \<^verbatim>\<open><<<\<close> always opens a block, and the block remembers
  the last \<^verbatim>\<open>ORIGINAL:\<close> or \<^verbatim>\<open>FIX:\<close> line of the record, if there was one. The
  lines up to the first line \<^verbatim>\<open>>>>\<close> are accumulated as they are; at \<^verbatim>\<open>>>>\<close> their
  join by newlines is written to the remembered field, to no other field of the record
  and to no field when none is remembered, and the parser is back in the record. The
  second and third conjunct are the documented sequences: the field line, the opener,
  the body and the closer.
\<close>

theorem block_written_to_remembered_field:
  assumes "current st = Some cur" "\<not> inMultiLine st" "''>>>'' \<notin> set body"
  shows "run file st (''<<<'' # body @ [''>>>'']) =
     Inr (st\<lparr>current :=
               Some (if lastField st = ''ORIGINAL'' then cur\<lparr>OriginalCode := joinLines body\<rparr>
                     else if lastField st = ''FIX'' then cur\<lparr>SuggestFix := joinLines body\<rparr>
                     else cur),
             inMultiLine := False, multiLineField := [], multiLineContent := []\<rparr>)
   \<and> run file st (''ORIGINAL:'' # ''<<<'' # body @ [''>>>'']) =
     Inr (st\<lparr>current := Some (cur\<lparr>OriginalCode := joinLines body\<rparr>),
             lastField := ''ORIGINAL'',
             inMultiLine := False, multiLineField := [], multiLineContent := []\<rparr>)
   \<and> run file st (''FIX:'' # ''<<<'' # body @ [''>>>'']) =
     Inr (st\<lparr>current := Some (cur\<lparr>SuggestFix := joinLines body\<rparr>),
             lastField := ''FIX'',
             inMultiLine := False, multiLineField := [], multiLineContent := []\<rparr>)"
proof -
  have o: "run file (st\<lparr>lastField := ''ORIGINAL''\<rparr>) (''<<<'' # body @ [''>>>'']) =
     Inr (st\<lparr>lastField := ''ORIGINAL'', current := Some (cur\<lparr>OriginalCode := joinLines body\<rparr>),
             inMultiLine := False, multiLineField := [], multiLineContent := []\<rparr>)"
    using run_block [of "st\<lparr>lastField := ''ORIGINAL''\<rparr>" cur body "file"] assms by simp
  have f: "run file (st\<lparr>lastField := ''FIX''\<rparr>) (''<<<'' # body @ [''>>>'']) =
     Inr (st\<lparr>lastField := ''FIX'', current := Some (cur\<lparr>SuggestFix := joinLines body\<rparr>),
             inMultiLine := False, multiLineField := [], multiLineContent := []\<rparr>)"
    using run_block [of "st\<lparr>lastField := ''FIX''\<rparr>" cur body "file"] assms by simp
  show ?thesis
    using run_block [OF assms] o f step_ORIGINAL [OF assms(1,2)] step_FIX [OF assms(1,2)]
    by simp
qed


text \<open>The theorem at an open record, the field \<^verbatim>\<open>FIX:\<close> and a body of two lines.\<close>

theorem block_written_to_remembered_field_witness:
  "run ''f.go'' (initParser\<lparr>current := Some (newSuggestion ''f.go'')\<rparr>)
      [''FIX:'', ''<<<'', ''a'', '' b'', ''>>>'']
   = Inr (initParser\<lparr>current := Some ((newSuggestion ''f.go'')\<lparr>SuggestFix := ''a\<newline> b''\<rparr>),
                      lastField := ''FIX''\<rparr>)"
  using block_written_to_remembered_field [of "initParser\<lparr>current := Some (newSuggestion ''f.go'')\<rparr>"
               "newSuggestion ''f.go''" "[''a'', '' b'']" "''f.go''"]
  by (simp add: initParser_def NL_def)

text \<open>
  Claim C6 as stated fails: a \<^verbatim>\<open><<<\<close> line that follows a \<^verbatim>\<open>TITLE:\<close> line in a record
  with no \<^verbatim>\<open>ORIGINAL:\<close> or \<^verbatim>\<open>FIX:\<close> line opens a block all the same (the
  \<^verbatim>\<open>LINE: 5\<close> inside it is swallowed), and a \<^verbatim>\<open><<<\<close> line that comes two field lines
  after \<^verbatim>\<open>ORIGINAL:\<close> still fills the original code.
\<close>

theorem block_open_counterexample:
  "run ''f.go'' initParser [''---'', ''TITLE: t'', ''<<<'']
     = Inr \<lparr>suggestions = [], current = Some ((newSuggestion ''f.go'')\<lparr>Title := ''t''\<rparr>),
            multiLineField = [], multiLineContent = [], inMultiLine = True, lastField = []\<rparr>
   \<and> parseStructuredResponse
       ''---\<newline>TITLE: t\<newline><<<\<newline>LINE: 5\<newline>>>>'' ''f.go''
     = Inr [(newSuggestion ''f.go'')\<lparr>Title := ''t''\<rparr>]
   \<and> parseStructuredResponse
       ''---\<newline>ORIGINAL:\<newline>TITLE: t\<newline>LINE: 5\<newline><<<\<newline>x\<newline>>>>'' ''f.go''
     = Inr [(newSuggestion ''f.go'')\<lparr>Title := ''t'', Line := 5, OriginalCode := ''x''\<rparr>]"
  by code_simp

text \<open>
  Claim C5 (the ending line), as amended. The parser sets the ending line only from an
  \<^verbatim>\<open>END_LINE:\<close> line. Of the lines that follow a separator \<^verbatim>\<open>---\<close> read outside a
  block, if none starts with \<^verbatim>\<open>END_LINE:\<close> then every suggestion emitted from them has
  the ending line 0, whatever its starting line is.
\<close>

theorem end_line_unset_when_absent:
  assumes "\<not> inMultiLine st" "\<forall>l\<in>set body. \<not> hasPrefix l ''END_LINE:''"
  shows "\<exists>st' more. run file st (''---'' # body) = Inr st'
           \<and> flush st' = flush st @ more \<and> (\<forall>s\<in>set more. EndLine s = 0)"
proof -
  let ?s = "st\<lparr>suggestions := flush st, current := Some (newSuggestion file), lastField := []\<rparr>"
  have s: "step file st ''---'' = Inr ?s" by (rule step_separator [OF assms(1)])
  have "parserOk ?s" by (simp add: parserOk_def)
  from run_Inr [OF this] obtain st' where r: "run file ?s body = Inr st'" by blast
  have "endLineUnset (flush st) ?s" by (simp add: endLineUnset_def newSuggestion_def)
  from run_invariant [where P = "endLineUnset (flush st)", OF r this] step_endLineUnset assms(2)
  have "endLineUnset (flush st) st'" by blast
  from flush_endLineUnset [OF this] s r show ?thesis by simp
qed

text \<open>The theorem at a record with \<^verbatim>\<open>LINE: 10\<close> and a title.\<close>

theorem end_line_unset_when_absent_witness:
  "run ''f.go'' initParser [''---'', ''LINE: 10'', ''TITLE: t'']
     = Inr (initParser\<lparr>current := Some ((newSuggestion ''f.go'')\<lparr>Line := 10, Title := ''t''\<rparr>)\<rparr>)
   \<and> flush (initParser\<lparr>current := Some ((newSuggestion ''f.go'')\<lparr>Line := 10, Title := ''t''\<rparr>)\<rparr>)
     = [(newSuggestion ''f.go'')\<lparr>Line := 10, Title := ''t''\<rparr>]
   \<and> EndLine ((newSuggestion ''f.go'')\<lparr>Line := 10, Title := ''t''\<rparr>) = 0"
proof -
  have r: "run ''f.go'' initParser [''---'', ''LINE: 10'', ''TITLE: t'']
     = Inr (initParser\<lparr>current := Some ((newSuggestion ''f.go'')\<lparr>Line := 10, Title := ''t''\<rparr>)\<rparr>)"
    by code_simp
  have f: "flush (initParser\<lparr>current := Some ((newSuggestion ''f.go'')\<lparr>Line := 10, Title := ''t''\<rparr>)\<rparr>)
     = [(newSuggestion ''f.go'')\<lparr>Line := 10, Title := ''t''\<rparr>]"
    by code_simp
  have i: "\<not> inMultiLine initParser" by (simp add: initParser_def)
  have b: "\<forall>l\<in>set [''LINE: 10'', ''TITLE: t'']. \<not> hasPrefix l ''END_LINE:''"
    by (simp add: hasPrefix_def)
  have e: "flush initParser = []" by (simp add: flush_def initParser_def)
  from end_line_unset_when_absent [OF i b, of "''f.go''"] r f e show ?thesis
    by auto
qed

text \<open>
  Claim C5 as stated fails: a record with \<^verbatim>\<open>LINE: 10\<close> and no \<^verbatim>\<open>END_LINE:\<close> has the
  ending line 0, not 10, and a record with \<^verbatim>\<open>LINE: 10\<close> and \<^verbatim>\<open>END_LINE: 3\<close> is emitted
  with an ending line below its starting line.
\<close>

theorem end_line_counterexample:
  "parseReviewResponse ''---\<newline>LINE: 10\<newline>TITLE: t'' ''f.go''
     = Inr ([(newSuggestion ''f.go'')\<lparr>Line := 10, Title := ''t''\<rparr>], None)
   \<and> EndLine ((newSuggestion ''f.go'')\<lparr>Line := 10, Title := ''t''\<rparr>)
       \<noteq> Line ((newSuggestion ''f.go'')\<lparr>Line := 10, Title := ''t''\<rparr>)
   \<and> parseReviewResponse ''---\<newline>LINE: 10\<newline>END_LINE: 3\<newline>TITLE: t'' ''f.go''
     = Inr ([(newSuggestion ''f.go'')\<lparr>Line := 10, EndLine := 3, Title := ''t''\<rparr>], None)
   \<and> EndLine ((newSuggestion ''f.go'')\<lparr>Line := 10, EndLine := 3, Title := ''t''\<rparr>)
       < Line ((newSuggestion ''f.go'')\<lparr>Line := 10, EndLine := 3, Title := ''t''\<rparr>)"
  by code_simp

text \<open>
  Claim C10 (a block left open at the end of the reply). Let the reply up to some line
  leave a record open, outside a block. If the reply goes on with a line \<^verbatim>\<open><<<\<close> and
  no line \<^verbatim>\<open>>>>\<close> follows, the lines after \<^verbatim>\<open><<<\<close> are dropped: the result is the
  result for the reply cut before \<^verbatim>\<open><<<\<close>, that is the records emitted so far and the
  open record as it was, if it has a title.
\<close>

theorem unclosed_block_discarded:
  assumes "run file initParser (splitLines pre) = Inr st"
    and "current st = Some cur" and "\<not> inMultiLine st"
    and "''>>>'' \<notin> set (splitLines body)"
  shows "parseStructuredResponse (pre @ NL # ''<<<'' @ NL # body) file
           = Inr (suggestions st @ (if Title cur \<noteq> [] then [cur] else []))
       \<and> parseStructuredResponse (pre @ NL # ''<<<'') file
           = Inr (suggestions st @ (if Title cur \<noteq> [] then [cur] else []))
       \<and> parseStructuredResponse pre file
           = Inr (suggestions st @ (if Title cur \<noteq> [] then [cur] else []))"
proof -
  let ?o = "st\<lparr>multiLineField := lastField st, inMultiLine := True, multiLineContent := []\<rparr>"
  have o: "step file st ''<<<'' = Inr ?o" by (rule step_open [OF assms(2,3)])
  have b: "run file ?o (splitLines body)
             = Inr (?o\<lparr>multiLineContent := multiLineContent ?o @ splitLines body\<rparr>)"
    by (rule run_block_body) (simp_all add: assms(4))
  have l1: "splitLines (pre @ NL # ''<<<'' @ NL # body)
              = splitLines pre @ ''<<<'' # splitLines body"
    using splitLines_append [of pre "''<<<'' @ NL # body"]
    by (simp only: splitLines_open_body)
  have l2: "splitLines (pre @ NL # ''<<<'') = splitLines pre @ [''<<<'']"
    by (simp only: splitLines_append splitLines_open)
  have f: "flush st = suggestions st @ (if Title cur \<noteq> [] then [cur] else [])"
    by (simp add: flush_def assms(2))
  have 1: "parseStructuredResponse (pre @ NL # ''<<<'' @ NL # body) file
           = Inr (suggestions st @ (if Title cur \<noteq> [] then [cur] else []))"
    unfolding parseStructuredResponse_def parseLines_def l1
    using assms(1,2) o b by (simp add: run_append flush_def)
  have 2: "parseStructuredResponse (pre @ NL # ''<<<'') file
           = Inr (suggestions st @ (if Title cur \<noteq> [] then [cur] else []))"
    unfolding parseStructuredResponse_def parseLines_def l2
    using assms(1,2) o by (simp add: run_append flush_def)
  have 3: "parseStructuredResponse pre file
           = Inr (suggestions st @ (if Title cur \<noteq> [] then [cur] else []))"
    unfolding parseStructuredResponse_def parseLines_def
    using assms(1) f by simp
  from 1 2 3 show ?thesis by blast
qed

text \<open>
  The theorem at a record whose fix was set by a one-line \<^verbatim>\<open>FIX:\<close> before a block
  that is never closed: the fix keeps the value of the one-line form.
\<close>

theorem unclosed_block_discarded_witness:
  "parseStructuredResponse
      ''---\<newline>TITLE: t\<newline>FIX: old\<newline>FIX:\<newline><<<\<newline>new\<newline>code'' ''f.go''
     = Inr [(newSuggestion ''f.go'')\<lparr>Title := ''t'', SuggestFix := ''old''\<rparr>]"
proof -
  have r: "run ''f.go'' initParser (splitLines ''---\<newline>TITLE: t\<newline>FIX: old\<newline>FIX:'')
     = Inr (initParser\<lparr>current := Some ((newSuggestion ''f.go'')\<lparr>Title := ''t'', SuggestFix := ''old''\<rparr>),
                        lastField := ''FIX''\<rparr>)"
    by code_simp
  have b: "''>>>'' \<notin> set (splitLines ''new\<newline>code'')"
    by code_simp
  from unclosed_block_discarded [OF r _ _ b, of "(newSuggestion ''f.go'')\<lparr>Title := ''t'', SuggestFix := ''old''\<rparr>"]
  show ?thesis
    by (simp add: initParser_def NL_def newSuggestion_def)
qed

section \<open>Claims about the review orchestrator\<close>

text \<open>
  \<^verbatim>\<open>reviewFile\<close> never panics, since the parser does not, and the suggestions it
  returns without an error are of the file reviewed.
\<close>

lemma parse_Inr: "\<exists>sugs. parseReviewResponse response file = Inr (sugs, None)"
  using run_init_Inr [of "file" "splitLines response"]
  by (auto simp: parseReviewResponse_def parseStructuredResponse_def parseLines_def)

lemma reviewFile_result:
  "\<exists>sugs err w'. reviewFile chat txt r w c = (Inr (sugs, err), w')
      \<and> (err = None \<longrightarrow> (\<forall>s\<in>set sugs. File s = Path c))"
proof -
  let ?p = "buildReviewPrompt txt c (standardsContext r) (projectHints r) (tolerance r)"
  obtain response err w' where ch: "chat w (model r) ?p = ((response, err), w')"
    by (cases "chat w (model r) ?p"; cases "fst (chat w (model r) ?p)") auto
  show ?thesis
  proof (cases err)
    case None
    from parse_Inr obtain sugs where p: "parseReviewResponse response (Path c) = Inr (sugs, None)"
      by blast
    from parse_filed [OF p] p ch None show ?thesis
      by (simp add: reviewFile_def)
  next
    case (Some e)
    with ch show ?thesis by (simp add: reviewFile_def)
  qed
qed

lemma reviewFile_failed:
  assumes "snd (fst (chat w (model r)
             (buildReviewPrompt txt c (standardsContext r) (projectHints r) (tolerance r)))) \<noteq> None"
  shows "\<exists>err. reviewFile chat txt r w c =
           (Inr ([], Some err), snd (chat w (model r)
             (buildReviewPrompt txt c (standardsContext r) (projectHints r) (tolerance r))))"
  using assms by (auto simp: reviewFile_def split: prod.splits option.splits)

lemma reviewLoop_Cons:
  "reviewLoop chat txt r res w (c # cs) =
     reviewLoop chat txt r
       (res\<lparr>Files := Files res @ [Path c],
             Suggestions := Suggestions res @ fileSuggestions chat txt r w c\<rparr>)
       (nextWorld chat txt r w c) cs"
proof -
  obtain sugs err w1 where rf: "reviewFile chat txt r w c = (Inr (sugs, err), w1)"
    using reviewFile_result [of chat "txt" r w c] by blast
  show ?thesis
  proof (cases "IsBinary c")
    case True
    then show ?thesis by (simp add: fileSuggestions_def nextWorld_def)
  next
    case False
    then show ?thesis
      using rf by (cases err) (simp_all add: fileSuggestions_def nextWorld_def)
  qed
qed

lemma reviewLoop_closed:
  "reviewLoop chat txt r res w cs =
     (Inr (res\<lparr>Files := Files res @ map Path cs,
               Suggestions := Suggestions res @ allSuggestions chat txt r w cs\<rparr>),
      finalWorld chat txt r w cs)"
proof (induction cs arbitrary: res w)
  case Nil
  then show ?case by simp
next
  case (Cons c cs)
  show ?case
    unfolding reviewLoop_Cons Cons.IH by simp
qed

lemma Review_closed:
  "Review chat txt r w cs =
     (Inr (\<lparr>Files = map Path cs, Suggestions = allSuggestions chat txt r w cs, Summary = []\<rparr>,
           None),
      finalWorld chat txt r w cs)"
  by (simp add: Review_def reviewLoop_closed)

lemma allSuggestions_append:
  "allSuggestions chat txt r w (xs @ ys) =
     allSuggestions chat txt r w xs @ allSuggestions chat txt r (finalWorld chat txt r w xs) ys"
  by (induction xs arbitrary: w) simp_all

lemma finalWorld_append:
  "finalWorld chat txt r w (xs @ ys) = finalWorld chat txt r (finalWorld chat txt r w xs) ys"
  by (induction xs arbitrary: w) simp_all

lemma fileSuggestions_File:
  "s \<in> set (fileSuggestions chat txt r w c) \<Longrightarrow> File s = Path c"
proof -
  assume a: "s \<in> set (fileSuggestions chat txt r w c)"
  obtain sugs err w1 where rf: "reviewFile chat txt r w c = (Inr (sugs, err), w1)"
    and fl: "err = None \<longrightarrow> (\<forall>s\<in>set sugs. File s = Path c)"
    using reviewFile_result [of chat "txt" r w c] by blast
  from a rf fl show ?thesis
    by (cases err; cases "IsBinary c") (simp_all add: fileSuggestions_def)
qed

lemma allSuggestions_File:
  "s \<in> set (allSuggestions chat txt r w cs) \<Longrightarrow> File s \<in> Path ` set cs"
  by (induction cs arbitrary: w) (auto dest: fileSuggestions_File)

lemma fileSuggestions_none:
  assumes "IsBinary c \<or> snd (fst (chat w (model r)
             (buildReviewPrompt txt c (standardsContext r) (projectHints r) (tolerance r)))) \<noteq> None"
  shows "fileSuggestions chat txt r w c = []"
proof (cases "IsBinary c")
  case True
  then show ?thesis by (simp add: fileSuggestions_def)
next
  case False
  with assms reviewFile_failed [of chat w r "txt" c] show ?thesis
    by (auto simp: fileSuggestions_def)
qed

lemma nextWorld_chat:
  "nextWorld chat txt r w c =
     (if IsBinary c then w
      else snd (chat w (model r)
             (buildReviewPrompt txt c (standardsContext r) (projectHints r) (tolerance r))))"
  by (auto simp: nextWorld_def reviewFile_def split: prod.splits option.splits)

text \<open>
  Claim C9 (the orchestrator's invariant). For every list of changes, every assistant
  \<open>chat\<close> and every state of it, \<^verbatim>\<open>Review\<close> returns a result and no error; the
  result lists the path of every change, in order, and the file of each of its
  suggestions is among them. A change that is binary, or for which the call of the
  assistant returns an error, adds its path and no suggestion, and the changes after it
  are reviewed: the result for \<open>xs @ c # ys\<close> is made of the result for the changes \<open>xs\<close>
  before it and of the result for the changes \<open>ys\<close> after it, reviewed from the state
  the assistant is left in.
\<close>

theorem review_files_cover_suggestions:
  assumes "Review chat txt r w xs = (Inr (res1, None), w1)"
    and "IsBinary c \<or> snd (fst (chat w1 (model r)
           (buildReviewPrompt txt c (standardsContext r) (projectHints r) (tolerance r)))) \<noteq> None"
    and "Review chat txt r
           (if IsBinary c then w1
            else snd (chat w1 (model r)
                   (buildReviewPrompt txt c (standardsContext r) (projectHints r) (tolerance r))))
           ys = (Inr (res2, None), w2)"
  shows "(\<exists>res w'. Review chat txt r w changes = (Inr (res, None), w')
            \<and> Files res = map Path changes
            \<and> (\<forall>s\<in>set (Suggestions res). File s \<in> set (Files res)))
       \<and> Review chat txt r w (xs @ c # ys) =
           (Inr (\<lparr>Files = Files res1 @ Path c # Files res2,
                  Suggestions = Suggestions res1 @ Suggestions res2, Summary = []\<rparr>, None), w2)"
proof -
  have 1: "\<exists>res w'. Review chat txt r w changes = (Inr (res, None), w')
            \<and> Files res = map Path changes
            \<and> (\<forall>s\<in>set (Suggestions res). File s \<in> set (Files res))"
    using allSuggestions_File [of _ chat "txt" r w changes]
    by (simp add: Review_closed)
  from assms(1) have x: "res1 = \<lparr>Files = map Path xs,
      Suggestions = allSuggestions chat txt r w xs, Summary = []\<rparr>"
    and w1: "w1 = finalWorld chat txt r w xs"
    by (simp_all add: Review_closed)
  have n: "nextWorld chat txt r w1 c =
      (if IsBinary c then w1
       else snd (chat w1 (model r)
              (buildReviewPrompt txt c (standardsContext r) (projectHints r) (tolerance r))))"
    by (rule nextWorld_chat)
  from assms(3) have y: "res2 = \<lparr>Files = map Path ys,
      Suggestions = allSuggestions chat txt r (nextWorld chat txt r w1 c) ys, Summary = []\<rparr>"
    and w2: "w2 = finalWorld chat txt r (nextWorld chat txt r w1 c) ys"
    unfolding n by (simp_all add: Review_closed)
  have e: "fileSuggestions chat txt r w1 c = []"
    using assms(2) by (rule fileSuggestions_none [of c chat w1 r "txt"])
  have 2: "Review chat txt r w (xs @ c # ys) =
           (Inr (\<lparr>Files = Files res1 @ Path c # Files res2,
                  Suggestions = Suggestions res1 @ Suggestions res2, Summary = []\<rparr>, None), w2)"
    using e unfolding x y w2 w1
    by (simp add: Review_closed allSuggestions_append finalWorld_append)
  from 1 2 show ?thesis by blast
qed

text \<open>
  The theorem at three changes and an assistant that answers its first call with one
  record and fails from then on: the second change fails and the third is binary.
\<close>

theorem review_files_cover_suggestions_witness:
  "Review
      (\<lambda>w m p. if w = (0::nat) then ((''---\<newline>TITLE: t'', None), Suc w)
                   else (([], Some ''timeout''), Suc w))
      \<lparr>strictGuidance = [], relaxedGuidance = [], moderateGuidance = [],
          guidelines = [], formatContract = []\<rparr>
      \<lparr>model = [], standardsContext = [], projectHints = [], tolerance = []\<rparr>
      0
      [\<lparr>Path = ''a.go'', Status = ''M'', OldPath = [], Diff = [], Content = [], IsBinary = False\<rparr>,
       \<lparr>Path = ''c.go'', Status = ''M'', OldPath = [], Diff = [], Content = [], IsBinary = False\<rparr>,
       \<lparr>Path = ''b.png'', Status = ''M'', OldPath = [], Diff = [], Content = [], IsBinary = True\<rparr>]
   = (Inr (\<lparr>Files = [''a.go'', ''c.go'', ''b.png''],
            Suggestions = [(newSuggestion ''a.go'')\<lparr>Title := ''t''\<rparr>], Summary = []\<rparr>, None), 2)"
proof -
  have 1: "Review
      (\<lambda>w m p. if w = (0::nat) then ((''---\<newline>TITLE: t'', None), Suc w)
                   else (([], Some ''timeout''), Suc w))
      \<lparr>strictGuidance = [], relaxedGuidance = [], moderateGuidance = [],
          guidelines = [], formatContract = []\<rparr>
      \<lparr>model = [], standardsContext = [], projectHints = [], tolerance = []\<rparr>
      0
      [\<lparr>Path = ''a.go'', Status = ''M'', OldPath = [], Diff = [], Content = [], IsBinary = False\<rparr>]
    = (Inr (\<lparr>Files = [''a.go''], Suggestions = [(newSuggestion ''a.go'')\<lparr>Title := ''t''\<rparr>],
             Summary = []\<rparr>, None), 1)"
    by code_simp
  have 2: "IsBinary \<lparr>Path = ''c.go'', Status = ''M'', OldPath = [], Diff = [], Content = [], IsBinary = False\<rparr>
    \<or> snd (fst ((\<lambda>w m p. if w = (0::nat) then ((''---\<newline>TITLE: t'', None), Suc w)
                   else (([], Some ''timeout''), Suc w)) 1 (model \<lparr>model = [], standardsContext = [], projectHints = [], tolerance = []\<rparr>)
      (buildReviewPrompt \<lparr>strictGuidance = [], relaxedGuidance = [], moderateGuidance = [],
          guidelines = [], formatContract = []\<rparr>
        \<lparr>Path = ''c.go'', Status = ''M'', OldPath = [], Diff = [], Content = [], IsBinary = False\<rparr>
        (standardsContext \<lparr>model = [], standardsContext = [], projectHints = [], tolerance = []\<rparr>) (projectHints \<lparr>model = [], standardsContext = [], projectHints = [], tolerance = []\<rparr>) (tolerance \<lparr>model = [], standardsContext = [], projectHints = [], tolerance = []\<rparr>)))) \<noteq> None"
    by simp
  have 3: "Review
      (\<lambda>w m p. if w = (0::nat) then ((''---\<newline>TITLE: t'', None), Suc w)
                   else (([], Some ''timeout''), Suc w))
      \<lparr>strictGuidance = [], relaxedGuidance = [], moderateGuidance = [],
          guidelines = [], formatContract = []\<rparr>
      \<lparr>model = [], standardsContext = [], projectHints = [], tolerance = []\<rparr>
      (if IsBinary \<lparr>Path = ''c.go'', Status = ''M'', OldPath = [], Diff = [], Content = [], IsBinary = False\<rparr> then 1
       else snd ((\<lambda>w m p. if w = (0::nat) then ((''---\<newline>TITLE: t'', None), Suc w)
                   else (([], Some ''timeout''), Suc w)) 1 (model \<lparr>model = [], standardsContext = [], projectHints = [], tolerance = []\<rparr>)
      (buildReviewPrompt \<lparr>strictGuidance = [], relaxedGuidance = [], moderateGuidance = [],
          guidelines = [], formatContract = []\<rparr>
        \<lparr>Path = ''c.go'', Status = ''M'', OldPath = [], Diff = [], Content = [], IsBinary = False\<rparr>
        (standardsContext \<lparr>model = [], standardsContext = [], projectHints = [], tolerance = []\<rparr>) (projectHints \<lparr>model = [], standardsContext = [], projectHints = [], tolerance = []\<rparr>) (tolerance \<lparr>model = [], standardsContext = [], projectHints = [], tolerance = []\<rparr>))))
      [\<lparr>Path = ''b.png'', Status = ''M'', OldPath = [], Diff = [], Content = [], IsBinary = True\<rparr>]
    = (Inr (\<lparr>Files = [''b.png''], Suggestions = [], Summary = []\<rparr>, None), 2)"
    by code_simp
  from review_files_cover_suggestions [OF 1 2 3]
  show ?thesis
    by simp
qed

section \<open>Claims about the change filter\<close>

text \<open>
  The loop of the filter computes \<open>filter\<close> with the predicate "not ignored and not
  larger than the maximum", and \<^verbatim>\<open>shouldIgnoreFile\<close> holds when some pattern ignores
  the path.
\<close>

lemma filterLoop_filter:
  "filterLoop Match pats mx acc cs =
     acc @ filter (\<lambda>c. \<not> shouldIgnoreFile Match (Path c) pats
                        \<and> int (length (Content c)) \<le> mx) cs"
  by (induction cs arbitrary: acc) auto

lemma ignoredByAny_iff:
  "ignoredByAny Match np bn pats = (\<exists>p\<in>set pats. patternIgnores Match np bn p)"
  by (induction pats) auto

lemma patternIgnores_matched:
  "fst (Match (ToSlash p) np) \<or> fst (Match (ToSlash p) bn) \<Longrightarrow> patternIgnores Match np bn p"
  by (auto simp: patternIgnores_def Let_def)

lemma patternIgnores_error_irrelevant:
  "patternIgnores Match np bn p = patternIgnores (\<lambda>q n. (fst (Match q n), None)) np bn p"
  by (simp add: patternIgnores_def)

lemma ignoredByAny_error_irrelevant:
  "ignoredByAny Match np bn pats = ignoredByAny (\<lambda>q n. (fst (Match q n), None)) np bn pats"
  unfolding ignoredByAny_iff
  using patternIgnores_error_irrelevant [of Match np bn] by simp

lemma patternIgnores_malformed:
  assumes "\<forall>n. \<exists>e. Match (ToSlash p) n = (False, Some e)"
    and "\<not> hasSuffix (ToSlash p) ''/*''" and "\<not> hasPrefix (ToSlash p) ''**/''"
  shows "\<not> patternIgnores Match np bn p"
proof -
  have "\<not> fst (Match (ToSlash p) n)" for n
    using assms(1) [rule_format, of n] by auto
  with assms(2,3) show ?thesis
    by (simp add: patternIgnores_def Let_def)
qed

text \<open>
  Claim C8 (the change filter), as amended. For every matcher, list of patterns,
  configured maximum and list of changes: the filter returns the changes that are
  neither ignored nor larger than the maximum, in their order (the maximum is the
  configured one, or 100000 when 0 is configured); a change whose path or base name
  matches a pattern is excluded; a change larger than the maximum is excluded; the
  error of a \<^verbatim>\<open>Match\<close> call never changes the verdict, which is that of a matcher
  that reports no error; and a pattern on which every \<^verbatim>\<open>Match\<close> call fails is skipped
  when it has neither the form \<^verbatim>\<open>dir/*\<close> nor the form \<^verbatim>\<open>**/rest\<close>, the forms
  that the source also compares to the path as plain strings.
\<close>

theorem filter_excludes_and_keeps_order:
  "filterChanges Match pats configured changes =
     filter (\<lambda>c. \<not> shouldIgnoreFile Match (Path c) pats
                  \<and> int (length (Content c)) \<le> effectiveMaxFileSize configured) changes
   \<and> (\<forall>c\<in>set changes.
        (\<exists>p\<in>set pats. fst (Match (ToSlash p) (ToSlash (Path c)))
                      \<or> fst (Match (ToSlash p) (Base (Path c))))
        \<longrightarrow> c \<notin> set (filterChanges Match pats configured changes))
   \<and> (\<forall>c\<in>set changes.
        effectiveMaxFileSize configured < int (length (Content c))
        \<longrightarrow> c \<notin> set (filterChanges Match pats configured changes))
   \<and> shouldIgnoreFile Match filePath pats
       = shouldIgnoreFile (\<lambda>q n. (fst (Match q n), None)) filePath pats
   \<and> ((\<forall>n. \<exists>e. Match (ToSlash p) n = (False, Some e))
        \<and> \<not> hasSuffix (ToSlash p) ''/*'' \<and> \<not> hasPrefix (ToSlash p) ''**/''
        \<longrightarrow> shouldIgnoreFile Match filePath (p # pats) = shouldIgnoreFile Match filePath pats)"
proof -
  let ?keep = "\<lambda>c. \<not> shouldIgnoreFile Match (Path c) pats
                  \<and> int (length (Content c)) \<le> effectiveMaxFileSize configured"
  have 1: "filterChanges Match pats configured changes = filter ?keep changes"
    by (simp add: filterChanges_def filterLoop_filter)
  have 2: "\<forall>c\<in>set changes.
        (\<exists>p\<in>set pats. fst (Match (ToSlash p) (ToSlash (Path c)))
                      \<or> fst (Match (ToSlash p) (Base (Path c))))
        \<longrightarrow> c \<notin> set (filterChanges Match pats configured changes)"
    unfolding 1
    using patternIgnores_matched [of Match]
    by (fastforce simp: shouldIgnoreFile_def ignoredByAny_iff)
  have 3: "\<forall>c\<in>set changes.
        effectiveMaxFileSize configured < int (length (Content c))
        \<longrightarrow> c \<notin> set (filterChanges Match pats configured changes)"
    unfolding 1 by auto
  have 4: "shouldIgnoreFile Match filePath pats
       = shouldIgnoreFile (\<lambda>q n. (fst (Match q n), None)) filePath pats"
    unfolding shouldIgnoreFile_def by (rule ignoredByAny_error_irrelevant)
  have 5: "(\<forall>n. \<exists>e. Match (ToSlash p) n = (False, Some e))
        \<and> \<not> hasSuffix (ToSlash p) ''/*'' \<and> \<not> hasPrefix (ToSlash p) ''**/''
        \<longrightarrow> shouldIgnoreFile Match filePath (p # pats) = shouldIgnoreFile Match filePath pats"
    using patternIgnores_malformed [of Match p "ToSlash filePath" "Base filePath"]
    by (auto simp: shouldIgnoreFile_def)
  from 1 2 3 4 5 show ?thesis by blast
qed

text \<open>
  The theorem at a matcher that rejects the pattern \<^verbatim>\<open>[\<close> as malformed and compares
  every other pattern to the name: of three changes the first is ignored by its base
  name and the second is too large.
\<close>

theorem filter_excludes_and_keeps_order_witness:
  "filterChanges (\<lambda>p n. if p = ''['' then (False, Some ''syntax error in pattern'') else (p = n, None))
      [''x.min.js''] 3
      [\<lparr>Path = ''web/x.min.js'', Status = ''M'', OldPath = [], Diff = [], Content = ''ab'', IsBinary = False\<rparr>,
       \<lparr>Path = ''big.go'', Status = ''M'', OldPath = [], Diff = [], Content = ''abcdef'', IsBinary = False\<rparr>,
       \<lparr>Path = ''keep.go'', Status = ''M'', OldPath = [], Diff = [], Content = ''ab'', IsBinary = False\<rparr>]
   = [\<lparr>Path = ''keep.go'', Status = ''M'', OldPath = [], Diff = [], Content = ''ab'', IsBinary = False\<rparr>]
   \<and> fst ((\<lambda>p n. if p = ''['' then (False, Some ''syntax error in pattern'') else (p = n, None))
            (ToSlash ''x.min.js'') (Base ''web/x.min.js''))
   \<and> effectiveMaxFileSize 3 < int (length ''abcdef'')
   \<and> \<not> shouldIgnoreFile (\<lambda>p n. if p = ''['' then (False, Some ''syntax error in pattern'') else (p = n, None))
       ''keep.go'' [''['', ''x.min.js'']"
proof -
  have h: "filterChanges (\<lambda>p n. if p = ''['' then (False, Some ''syntax error in pattern'') else (p = n, None))
      [''x.min.js''] 3
      [\<lparr>Path = ''web/x.min.js'', Status = ''M'', OldPath = [], Diff = [], Content = ''ab'', IsBinary = False\<rparr>,
       \<lparr>Path = ''big.go'', Status = ''M'', OldPath = [], Diff = [], Content = ''abcdef'', IsBinary = False\<rparr>,
       \<lparr>Path = ''keep.go'', Status = ''M'', OldPath = [], Diff = [], Content = ''ab'', IsBinary = False\<rparr>]
   = [\<lparr>Path = ''keep.go'', Status = ''M'', OldPath = [], Diff = [], Content = ''ab'', IsBinary = False\<rparr>]"
    by code_simp
  have m: "fst ((\<lambda>p n. if p = ''['' then (False, Some ''syntax error in pattern'') else (p = n, None))
            (ToSlash ''x.min.js'') (Base ''web/x.min.js''))"
    by code_simp
  have z: "effectiveMaxFileSize 3 < int (length ''abcdef'')"
    by code_simp
  have k: "\<not> shouldIgnoreFile (\<lambda>p n. if p = ''['' then (False, Some ''syntax error in pattern'') else (p = n, None))
       ''keep.go'' [''x.min.js'']"
    by code_simp
  from filter_excludes_and_keeps_order
         [of "(\<lambda>p n. if p = ''['' then (False, Some ''syntax error in pattern'') else (p = n, None))"
             "[''x.min.js'']" 3
             "[\<lparr>Path = ''web/x.min.js'', Status = ''M'', OldPath = [], Diff = [], Content = ''ab'', IsBinary = False\<rparr>,
               \<lparr>Path = ''big.go'', Status = ''M'', OldPath = [], Diff = [], Content = ''abcdef'', IsBinary = False\<rparr>,
               \<lparr>Path = ''keep.go'', Status = ''M'', OldPath = [], Diff = [], Content = ''ab'', IsBinary = False\<rparr>]"
             "''keep.go''" "''[''"] k
  have "\<not> shouldIgnoreFile (\<lambda>p n. if p = ''['' then (False, Some ''syntax error in pattern'') else (p = n, None))
       ''keep.go'' [''['', ''x.min.js'']"
    by (simp add: ToSlash_def hasSuffix_def hasPrefix_def)
  with h m z show ?thesis by simp
qed

text \<open>
  Claim C8 as stated fails twice. With a matcher that reports every pattern as
  malformed, the pattern \<^verbatim>\<open>[/*\<close> (malformed for \<^verbatim>\<open>filepath.Match\<close>: the class is not
  closed) still excludes the file \<^verbatim>\<open>[/a.go\<close>, through the rule for patterns that end
  in \<^verbatim>\<open>/*\<close>. And with the maximum 0 configured, a file of two bytes is kept.
\<close>

theorem filter_counterexample:
  "filterChanges (\<lambda>p n. (False, Some ''syntax error in pattern'')) [''[/*''] 100000
      [\<lparr>Path = ''[/a.go'', Status = ''M'', OldPath = [], Diff = [], Content = ''ab'', IsBinary = False\<rparr>]
   = []
   \<and> filterChanges (\<lambda>p n. (False, None)) [] 0
      [\<lparr>Path = ''keep.go'', Status = ''M'', OldPath = [], Diff = [], Content = ''ab'', IsBinary = False\<rparr>]
   = [\<lparr>Path = ''keep.go'', Status = ''M'', OldPath = [], Diff = [], Content = ''ab'', IsBinary = False\<rparr>]"
  by code_simp

section \<open>Claims about the patch applier\<close>

text \<open>
  \<open>contains\<close> is "occurs as a substring", and \<open>replaceFirst\<close> replaces the occurrence
  before which there is no other.
\<close>

lemma hasPrefix_append [simp]: "hasPrefix (p @ s) p"
  by (simp add: hasPrefix_def)

lemma hasPrefix_iff: "hasPrefix s p = (\<exists>t. s = p @ t)"
proof
  assume "hasPrefix s p"
  then have "s = p @ drop (length p) s"
    using append_take_drop_id [of "length p" s] by (simp add: hasPrefix_def)
  then show "\<exists>t. s = p @ t" ..
next
  assume "\<exists>t. s = p @ t"
  then show "hasPrefix s p" by (auto simp: hasPrefix_def)
qed

lemma contains_iff: "contains s sub = (\<exists>pre post. s = pre @ sub @ post)"
proof (induction s)
  case Nil
  then show ?case by auto
next
  case (Cons c s)
  show ?case
  proof
    assume "contains (c # s) sub"
    then consider "hasPrefix (c # s) sub" | "contains s sub" by auto
    then show "\<exists>pre post. c # s = pre @ sub @ post"
    proof cases
      case 1
      then obtain t where "c # s = sub @ t" by (auto simp: hasPrefix_iff)
      then have "c # s = [] @ sub @ t" by simp
      then show ?thesis by blast
    next
      case 2
      with Cons.IH obtain pre post where "s = pre @ sub @ post" by blast
      then have "c # s = (c # pre) @ sub @ post" by simp
      then show ?thesis by blast
    qed
  next
    assume "\<exists>pre post. c # s = pre @ sub @ post"
    then obtain pre post where e: "c # s = pre @ sub @ post" by blast
    show "contains (c # s) sub"
    proof (cases pre)
      case Nil
      with e have "hasPrefix (c # s) sub" by (auto simp: hasPrefix_iff)
      then show ?thesis by simp
    next
      case (Cons d pre')
      with e have "s = pre' @ sub @ post" by simp
      with Cons.IH have "contains s sub" by blast
      then show ?thesis by simp
    qed
  qed
qed

lemma replaceFirst_prefix:
  "hasPrefix s old \<Longrightarrow> replaceFirst s old new = new @ drop (length old) s"
  by (cases s) (auto simp: hasPrefix_def)

lemma replaceFirst_first:
  "\<forall>i<length pre. \<not> hasPrefix (drop i (pre @ old @ post)) old
   \<Longrightarrow> replaceFirst (pre @ old @ post) old new = pre @ new @ post"
proof (induction pre)
  case Nil
  show ?case using replaceFirst_prefix [of "old @ post" old new] by simp
next
  case (Cons c pre)
  from Cons.prems have 0: "\<not> hasPrefix (c # pre @ old @ post) old" by fastforce
  have "\<forall>i<length pre. \<not> hasPrefix (drop i (pre @ old @ post)) old"
  proof (intro allI impI)
    fix i assume "i < length pre"
    then have "Suc i < length (c # pre)" by simp
    with Cons.prems have "\<not> hasPrefix (drop (Suc i) ((c # pre) @ old @ post)) old" by blast
    then show "\<not> hasPrefix (drop i (pre @ old @ post)) old" by simp
  qed
  with Cons.IH 0 show ?case by simp
qed

lemma applyFix_failed_unchanged: "\<not> fst (applyFix fs sug) \<Longrightarrow> snd (applyFix fs sug) = fs"
  by (auto simp: applyFix_def ReadFile_def WriteFile_def Let_def gitAdd_def
      split: option.splits if_splits)

text \<open>
  Claim C1 (patch application). Let the suggestion have an original snippet and a fix
  that are neither empty nor \<^verbatim>\<open>N/A\<close>, and let its file be readable with the content
  \<open>content\<close>. If the original occurs in the content, replacing its first occurrence
  changes the content and the file can be written, \<^verbatim>\<open>applyFix\<close> succeeds and leaves
  the file with the first occurrence replaced, and every other file as it was. If the
  original does not occur, or replacing it changes nothing, \<^verbatim>\<open>applyFix\<close> fails and
  the file system is the one it started from; indeed whenever it fails nothing was
  written. The last two conjuncts say what \<open>contains\<close> and \<open>replaceFirst\<close> compute:
  the original occurs when the content is \<open>pre @ original @ post\<close>, and when no
  occurrence starts inside \<open>pre\<close> the new content is \<open>pre @ fix @ post\<close>.
\<close>

theorem applyFix_replaces_first_occurrence:
  assumes "OriginalCode sug \<noteq> []" "OriginalCode sug \<noteq> ''N/A''"
    and "SuggestFix sug \<noteq> []" "SuggestFix sug \<noteq> ''N/A''"
    and "files fs (File sug) = Some content"
  shows "(contains content (OriginalCode sug)
          \<and> replaceFirst content (OriginalCode sug) (SuggestFix sug) \<noteq> content
          \<and> File sug \<notin> readOnly fs
          \<longrightarrow> fst (applyFix fs sug)
              \<and> files (snd (applyFix fs sug)) (File sug)
                  = Some (replaceFirst content (OriginalCode sug) (SuggestFix sug))
              \<and> (\<forall>p. p \<noteq> File sug \<longrightarrow> files (snd (applyFix fs sug)) p = files fs p))
       \<and> (\<not> contains content (OriginalCode sug)
          \<or> replaceFirst content (OriginalCode sug) (SuggestFix sug) = content
          \<longrightarrow> applyFix fs sug = (False, fs))
       \<and> (\<not> fst (applyFix fs sug) \<longrightarrow> snd (applyFix fs sug) = fs)
       \<and> (contains content (OriginalCode sug)
            = (\<exists>pre post. content = pre @ OriginalCode sug @ post))
       \<and> (\<forall>pre post. content = pre @ OriginalCode sug @ post
            \<and> (\<forall>i<length pre. \<not> hasPrefix (drop i content) (OriginalCode sug))
            \<longrightarrow> replaceFirst content (OriginalCode sug) (SuggestFix sug)
                = pre @ SuggestFix sug @ post)"
proof -
  have 1: "contains content (OriginalCode sug)
          \<and> replaceFirst content (OriginalCode sug) (SuggestFix sug) \<noteq> content
          \<and> File sug \<notin> readOnly fs
          \<longrightarrow> fst (applyFix fs sug)
              \<and> files (snd (applyFix fs sug)) (File sug)
                  = Some (replaceFirst content (OriginalCode sug) (SuggestFix sug))
              \<and> (\<forall>p. p \<noteq> File sug \<longrightarrow> files (snd (applyFix fs sug)) p = files fs p)"
    using assms
    by (simp add: applyFix_def ReadFile_def WriteFile_def Let_def gitAdd_def)
  have 2: "\<not> contains content (OriginalCode sug)
          \<or> replaceFirst content (OriginalCode sug) (SuggestFix sug) = content
          \<longrightarrow> applyFix fs sug = (False, fs)"
    using assms
    by (auto simp: applyFix_def ReadFile_def Let_def)
  have 3: "\<not> fst (applyFix fs sug) \<longrightarrow> snd (applyFix fs sug) = fs"
    using applyFix_failed_unchanged by blast
  have 4: "contains content (OriginalCode sug)
            = (\<exists>pre post. content = pre @ OriginalCode sug @ post)"
    by (rule contains_iff)
  have 5: "\<forall>pre post. content = pre @ OriginalCode sug @ post
            \<and> (\<forall>i<length pre. \<not> hasPrefix (drop i content) (OriginalCode sug))
            \<longrightarrow> replaceFirst content (OriginalCode sug) (SuggestFix sug)
                = pre @ SuggestFix sug @ post"
    using replaceFirst_first by blast
  from 1 2 3 4 5 show ?thesis by blast
qed

text \<open>
  The theorem at the file content \<^verbatim>\<open>abc\nfoo\nxyz\<close> with the fix \<^verbatim>\<open>bar\<close>: for the
  original \<^verbatim>\<open>foo\<close> the content becomes \<^verbatim>\<open>abc\nbar\nxyz\<close>, and for the original
  \<^verbatim>\<open>notpresent\<close> the call fails and changes nothing.
\<close>

theorem applyFix_replaces_first_occurrence_witness:
  "fst (applyFix
      \<lparr>files = [''f.go'' \<mapsto> ''abc\<newline>foo\<newline>xyz''], modes = [''f.go'' \<mapsto> 420],
         readOnly = {}, gitIndex = {}, gitAddFails = False\<rparr>
      \<lparr>File = ''f.go'', Line = 2, EndLine = 2, Severity = ''warning'', Confidence = [],
         Title = ''t'', Description = [], OriginalCode = ''foo'', SuggestFix = ''bar'',
         Category = []\<rparr>)
   \<and> files (snd (applyFix
      \<lparr>files = [''f.go'' \<mapsto> ''abc\<newline>foo\<newline>xyz''], modes = [''f.go'' \<mapsto> 420],
         readOnly = {}, gitIndex = {}, gitAddFails = False\<rparr>
      \<lparr>File = ''f.go'', Line = 2, EndLine = 2, Severity = ''warning'', Confidence = [],
         Title = ''t'', Description = [], OriginalCode = ''foo'', SuggestFix = ''bar'',
         Category = []\<rparr>)) ''f.go''
     = Some ''abc\<newline>bar\<newline>xyz''
   \<and> applyFix
      \<lparr>files = [''f.go'' \<mapsto> ''abc\<newline>foo\<newline>xyz''], modes = [''f.go'' \<mapsto> 420],
         readOnly = {}, gitIndex = {}, gitAddFails = False\<rparr>
      \<lparr>File = ''f.go'', Line = 2, EndLine = 2, Severity = ''warning'', Confidence = [],
         Title = ''t'', Description = [], OriginalCode = ''notpresent'', SuggestFix = ''bar'',
         Category = []\<rparr>
     = (False,
      \<lparr>files = [''f.go'' \<mapsto> ''abc\<newline>foo\<newline>xyz''], modes = [''f.go'' \<mapsto> 420],
         readOnly = {}, gitIndex = {}, gitAddFails = False\<rparr>)"
proof -
  have c: "contains ''abc\<newline>foo\<newline>xyz'' ''foo''"
    by code_simp
  have r: "replaceFirst ''abc\<newline>foo\<newline>xyz'' ''foo'' ''bar'' = ''abc\<newline>bar\<newline>xyz''"
    by code_simp
  have n: "\<not> contains ''abc\<newline>foo\<newline>xyz'' ''notpresent''"
    by code_simp
  from applyFix_replaces_first_occurrence
         [of "\<lparr>File = ''f.go'', Line = 2, EndLine = 2, Severity = ''warning'', Confidence = [],
         Title = ''t'', Description = [], OriginalCode = ''foo'', SuggestFix = ''bar'',
         Category = []\<rparr>"
             "\<lparr>files = [''f.go'' \<mapsto> ''abc\<newline>foo\<newline>xyz''], modes = [''f.go'' \<mapsto> 420],
         readOnly = {}, gitIndex = {}, gitAddFails = False\<rparr>"
             "''abc\<newline>foo\<newline>xyz''"]
       applyFix_replaces_first_occurrence
         [of "\<lparr>File = ''f.go'', Line = 2, EndLine = 2, Severity = ''warning'', Confidence = [],
         Title = ''t'', Description = [], OriginalCode = ''notpresent'', SuggestFix = ''bar'',
         Category = []\<rparr>"
             "\<lparr>files = [''f.go'' \<mapsto> ''abc\<newline>foo\<newline>xyz''], modes = [''f.go'' \<mapsto> 420],
         readOnly = {}, gitIndex = {}, gitAddFails = False\<rparr>"
             "''abc\<newline>foo\<newline>xyz''"]
       c r n
  show ?thesis
    by (simp add: hasPrefix_def)
qed

section \<open>Claims about the review session\<close>

text \<open>
  What \<^verbatim>\<open>ReadString\<close> returns for a line that ends in a newline, the commands the
  lines of the claim normalise to, and one iteration of the loop for each of them.
\<close>

lemma ReadString_line:
  "NL \<notin> set l \<Longrightarrow> ReadString (l @ NL # rest) = (l @ [NL], None, rest)"
proof -
  assume n: "NL \<notin> set l"
  then have t: "takeWhile (\<lambda>c. c \<noteq> NL) (l @ NL # rest) = l"
    by (induction l) auto
  show ?thesis
    unfolding ReadString_def t by simp
qed

lemma ReadString_fix: "ReadString (''fix\<newline>'' @ rest) = (''fix\<newline>'', None, rest)"
  using ReadString_line [of "''fix''" rest] by (simp add: NL_def)

lemma ReadString_skip: "ReadString (''skip\<newline>'' @ rest) = (''skip\<newline>'', None, rest)"
  using ReadString_line [of "''skip''" rest] by (simp add: NL_def)

lemma ReadString_yes: "ReadString (''yes\<newline>'' @ rest) = (''yes\<newline>'', None, rest)"
  using ReadString_line [of "''yes''" rest] by (simp add: NL_def)

lemma ReadString_quit: "ReadString (''quit\<newline>'' @ rest) = (''quit\<newline>'', None, rest)"
  using ReadString_line [of "''quit''" rest] by (simp add: NL_def)

lemma command_fix: "command ''fix\<newline>'' = ''fix''"
  by code_simp

lemma command_skip: "command ''skip\<newline>'' = ''skip''"
  by code_simp

lemma command_yes: "command ''yes\<newline>'' = ''yes''"
  by code_simp

lemma command_quit: "command ''quit\<newline>'' = ''quit''"
  by code_simp

lemma loop_done:
  "\<not> current' s < length (suggestions' s) \<Longrightarrow> sessionLoop fs s stdin = (None, s, fs, stdin)"
  by (subst sessionLoop.simps) simp

lemma loop_quit:
  "current' s < length (suggestions' s) \<Longrightarrow>
   sessionLoop fs s (''quit\<newline>'' @ rest) =
     (Some \<lparr>Action = ActionAbort, Fixed = fixed s, Skipped = skipped s\<rparr>, s, fs, rest)"
  by (subst sessionLoop.simps) (simp add: ReadString_quit command_quit del: append.simps)

lemma loop_skip:
  "current' s < length (suggestions' s) \<Longrightarrow>
   sessionLoop fs s (''skip\<newline>'' @ rest) =
     sessionLoop fs
       (s\<lparr>skipped := skipped s + 1, skippedMap := (skippedMap s)(current' s \<mapsto> True),
          current' := current' s + 1\<rparr>) rest"
  by (subst sessionLoop.simps) (simp add: ReadString_skip command_skip del: append.simps)

lemma loop_fix:
  "current' s < length (suggestions' s) \<Longrightarrow>
   applyFix fs (suggestions' s ! current' s) = (True, fs1) \<Longrightarrow>
   sessionLoop fs s (''fix\<newline>'' @ rest) =
     sessionLoop fs1 (s\<lparr>fixed := fixed s + 1, current' := current' s + 1\<rparr>) rest"
  by (subst sessionLoop.simps) (simp add: ReadString_fix command_fix del: append.simps)

text \<open>
  Claim C7 (a trace of the session). For a session over the two suggestions \<open>a\<close> and
  \<open>b\<close>, with a patch of \<open>a\<close> that succeeds, the input lines \<^verbatim>\<open>fix\<close> and \<^verbatim>\<open>skip\<close>
  end the loop past the last suggestion (the index is 2) with one fixed, one skipped
  and none remaining; with the line \<^verbatim>\<open>yes\<close> after them \<^verbatim>\<open>Run\<close> returns the outcome
  commit with one fixed and one skipped. In every state \<open>s\<close> of a session that
  presents a suggestion, the line \<^verbatim>\<open>quit\<close> makes \<^verbatim>\<open>Run\<close> return the outcome abort
  with the counts of \<open>s\<close>, and leaves the session and the files as they are.
\<close>

theorem session_fix_skip_yes_and_quit:
  assumes "Suggestions res = [a, b]" and "applyFix fs a = (True, fs1)"
    and "current' s < length (suggestions' s)"
  shows "sessionLoop fs (NewReviewSession res) (''fix\<newline>'' @ ''skip\<newline>'' @ rest) =
           (None,
            (NewReviewSession res)\<lparr>fixed := 1, skipped := 1, skippedMap := [1 \<mapsto> True],
                                   current' := 2\<rparr>, fs1, rest)
       \<and> remaining ((NewReviewSession res)\<lparr>fixed := 1, skipped := 1,
                        skippedMap := [1 \<mapsto> True], current' := 2\<rparr>) = 0
       \<and> Run fs (NewReviewSession res) (''fix\<newline>'' @ ''skip\<newline>'' @ ''yes\<newline>'' @ rest) =
           (\<lparr>Action = ActionCommit, Fixed = 1, Skipped = 1\<rparr>,
            (NewReviewSession res)\<lparr>fixed := 1, skipped := 1, skippedMap := [1 \<mapsto> True],
                                   current' := 2\<rparr>, fs1, rest)
       \<and> Run fs' s (''quit\<newline>'' @ rest') =
           (\<lparr>Action = ActionAbort, Fixed = fixed s, Skipped = skipped s\<rparr>, s, fs', rest')"
proof -
  let ?s0 = "NewReviewSession res"
  let ?s1 = "?s0\<lparr>fixed := fixed ?s0 + 1, current' := current' ?s0 + 1\<rparr>"
  let ?s2 = "?s1\<lparr>skipped := skipped ?s1 + 1,
                  skippedMap := (skippedMap ?s1)(current' ?s1 \<mapsto> True),
                  current' := current' ?s1 + 1\<rparr>"
  let ?end = "?s0\<lparr>fixed := 1, skipped := 1, skippedMap := [1 \<mapsto> True], current' := 2\<rparr>"
  have e: "?s2 = ?end" by (simp add: NewReviewSession_def)
  have l0: "current' ?s0 < length (suggestions' ?s0)"
    and a0: "applyFix fs (suggestions' ?s0 ! current' ?s0) = (True, fs1)"
    using assms(1,2) by (simp_all add: NewReviewSession_def)
  have l1: "current' ?s1 < length (suggestions' ?s1)"
    using assms(1) by (simp add: NewReviewSession_def)
  have d2: "\<not> current' ?s2 < length (suggestions' ?s2)"
    using assms(1) by (simp add: NewReviewSession_def)
  have loop: "sessionLoop fs ?s0 (''fix\<newline>'' @ ''skip\<newline>'' @ stdin) = (None, ?end, fs1, stdin)"
    for stdin
  proof -
    have "sessionLoop fs ?s0 (''fix\<newline>'' @ ''skip\<newline>'' @ stdin)
            = sessionLoop fs1 ?s1 (''skip\<newline>'' @ stdin)"
      by (rule loop_fix [OF l0 a0])
    also have "\<dots> = sessionLoop fs1 ?s2 stdin"
      by (rule loop_skip [OF l1])
    also have "\<dots> = (None, ?s2, fs1, stdin)"
      by (rule loop_done [OF d2])
    finally show ?thesis
      unfolding e .
  qed
  have 1: "sessionLoop fs ?s0 (''fix\<newline>'' @ ''skip\<newline>'' @ rest) = (None, ?end, fs1, rest)"
    by (rule loop)
  have 2: "remaining ?end = 0"
    using assms(1) by (simp add: remaining_def NewReviewSession_def)
  have t: "length (suggestions' ?s0) \<noteq> 0"
    using assms(1) by (simp add: NewReviewSession_def)
  have 3: "Run fs ?s0 (''fix\<newline>'' @ ''skip\<newline>'' @ ''yes\<newline>'' @ rest) =
           (\<lparr>Action = ActionCommit, Fixed = 1, Skipped = 1\<rparr>, ?end, fs1, rest)"
    unfolding Run_def Let_def loop
    using t by (simp add: ReadString_yes command_yes del: append.simps)
  have 4: "Run fs' s (''quit\<newline>'' @ rest') =
           (\<lparr>Action = ActionAbort, Fixed = fixed s, Skipped = skipped s\<rparr>, s, fs', rest')"
    unfolding Run_def Let_def loop_quit [OF assms(3)]
    using assms(3) by auto
  from 1 2 3 4 show ?thesis by blast
qed

text \<open>
  The theorem at a file \<^verbatim>\<open>f.go\<close> with the content \<^verbatim>\<open>abc\nfoo\nxyz\<close> and two
  suggestions for it, the first replacing \<^verbatim>\<open>foo\<close> by \<^verbatim>\<open>bar\<close>.
\<close>

theorem session_fix_skip_yes_and_quit_witness:
  "fst (Run
      \<lparr>files = [''f.go'' \<mapsto> ''abc\<newline>foo\<newline>xyz''], modes = [''f.go'' \<mapsto> 420],
         readOnly = {}, gitIndex = {}, gitAddFails = False\<rparr>
      (NewReviewSession
        \<lparr>Files = [''f.go''],
         Suggestions =
          [\<lparr>File = ''f.go'', Line = 2, EndLine = 2, Severity = ''warning'', Confidence = [],
           Title = ''t'', Description = [], OriginalCode = ''foo'', SuggestFix = ''bar'',
           Category = []\<rparr>,
           \<lparr>File = ''f.go'', Line = 2, EndLine = 2, Severity = ''warning'', Confidence = [],
           Title = ''u'', Description = [], OriginalCode = ''xyz'', SuggestFix = ''XYZ'',
           Category = []\<rparr>],
         Summary = []\<rparr>)
      ''fix\<newline>skip\<newline>yes\<newline>'')
     = \<lparr>Action = ActionCommit, Fixed = 1, Skipped = 1\<rparr>
   \<and> fst (Run
      \<lparr>files = [''f.go'' \<mapsto> ''abc\<newline>foo\<newline>xyz''], modes = [''f.go'' \<mapsto> 420],
         readOnly = {}, gitIndex = {}, gitAddFails = False\<rparr>
      (NewReviewSession
        \<lparr>Files = [''f.go''],
         Suggestions =
          [\<lparr>File = ''f.go'', Line = 2, EndLine = 2, Severity = ''warning'', Confidence = [],
           Title = ''t'', Description = [], OriginalCode = ''foo'', SuggestFix = ''bar'',
           Category = []\<rparr>,
           \<lparr>File = ''f.go'', Line = 2, EndLine = 2, Severity = ''warning'', Confidence = [],
           Title = ''u'', Description = [], OriginalCode = ''xyz'', SuggestFix = ''XYZ'',
           Category = []\<rparr>],
         Summary = []\<rparr>)
      ''quit\<newline>'')
     = \<lparr>Action = ActionAbort, Fixed = 0, Skipped = 0\<rparr>"
proof -
  let ?fs = "\<lparr>files = [''f.go'' \<mapsto> ''abc\<newline>foo\<newline>xyz''], modes = [''f.go'' \<mapsto> 420],
         readOnly = {}, gitIndex = {}, gitAddFails = False\<rparr>"
  let ?a = "\<lparr>File = ''f.go'', Line = 2, EndLine = 2, Severity = ''warning'', Confidence = [],
           Title = ''t'', Description = [], OriginalCode = ''foo'', SuggestFix = ''bar'',
           Category = []\<rparr>"
  let ?b = "\<lparr>File = ''f.go'', Line = 2, EndLine = 2, Severity = ''warning'', Confidence = [],
           Title = ''u'', Description = [], OriginalCode = ''xyz'', SuggestFix = ''XYZ'',
           Category = []\<rparr>"
  let ?res = "\<lparr>Files = [''f.go''], Suggestions = [?a, ?b], Summary = []\<rparr>"
  have "fst (applyFix ?fs ?a)"
    by (simp add: applyFix_def ReadFile_def Stat_def WriteFile_def gitAdd_def hasPrefix_def)
  then have a: "applyFix ?fs ?a = (True, snd (applyFix ?fs ?a))"
    by (cases "applyFix ?fs ?a") simp
  have r: "Suggestions ?res = [?a, ?b]"
    by simp
  have c: "current' (NewReviewSession ?res) < length (suggestions' (NewReviewSession ?res))"
    by (simp add: NewReviewSession_def)
  from session_fix_skip_yes_and_quit [OF r a c, of "[]" ?fs "[]"]
  show ?thesis
    by (simp add: NewReviewSession_def)
qed

end
